theory Spec2Isabelle
  imports Main
begin

section \<open>Python library functions used by index.py\<close>

text \<open>
  Python strings are modelled as \<^typ>\<open>string\<close>, one \<^typ>\<open>char\<close> per code point
  (so the model covers text whose code points are below 256).
\<close>

definition strip :: "string \<Rightarrow> string \<Rightarrow> string" where
  \<comment> \<open>\<^verbatim>\<open>s.strip(chars)\<close>: drop the leading and the trailing characters that are in \<open>chars\<close>.\<close>
  "strip chars s =
     rev (dropWhile (\<lambda>c. c \<in> set chars) (rev (dropWhile (\<lambda>c. c \<in> set chars) s)))"

definition rstrip :: "string \<Rightarrow> string \<Rightarrow> string" where
  "rstrip chars s = rev (dropWhile (\<lambda>c. c \<in> set chars) (rev s))"

definition posixpath_split :: "string \<Rightarrow> string \<times> string" where
  \<comment> \<open>\<^verbatim>\<open>os.path.split\<close>: \<^verbatim>\<open>i = p.rfind('/') + 1; head, tail = p[:i], p[i:]\<close>, and the head
      loses its trailing slashes unless it consists of slashes only.\<close>
  "posixpath_split p =
     (let i = length p - length (takeWhile (\<lambda>c. c \<noteq> CHR ''/'') (rev p));
          head = take i p;
          tail = drop i p
      in (if head \<noteq> [] \<and> head \<noteq> replicate (length head) (CHR ''/'')
          then rstrip ''/'' head else head, tail))"

subsection \<open>string.Template\<close>

definition is_id_start :: "char \<Rightarrow> bool" where
  "is_id_start c = (c \<in> set ''_abcdefghijklmnopqrstuvwxyzABCDEFGHIJKLMNOPQRSTUVWXYZ'')"

definition is_id_char :: "char \<Rightarrow> bool" where
  "is_id_char c = (is_id_start c \<or> c \<in> set ''0123456789'')"

text \<open>
  \<^verbatim>\<open>Template(t).safe_substitute(**m)\<close>: the template is scanned once, left to right, for
  \<^verbatim>\<open>$$\<close>, \<^verbatim>\<open>$identifier\<close> and \<^verbatim>\<open>${identifier}\<close>; a placeholder whose name is missing from the
  mapping, and an ill-formed \<^verbatim>\<open>$\<close>, stay as they are. Inserted values are not scanned again.
\<close>

function safe_substitute :: "string \<Rightarrow> (string \<rightharpoonup> string) \<Rightarrow> string" where
  "safe_substitute [] m = []"
| "safe_substitute (c # cs) m =
     (if c \<noteq> CHR ''$'' then c # safe_substitute cs m
      else (case cs of
          [] \<Rightarrow> [c]
        | d # ds \<Rightarrow>
            if d = CHR ''$'' then CHR ''$'' # safe_substitute ds m
            else if is_id_start d then
              (case m (takeWhile is_id_char cs) of
                 Some v \<Rightarrow> v
               | None \<Rightarrow> c # takeWhile is_id_char cs)
              @ safe_substitute (dropWhile is_id_char cs) m
            else if d = CHR ''{'' \<and> ds \<noteq> [] \<and> is_id_start (hd ds)
                    \<and> dropWhile is_id_char ds \<noteq> []
                    \<and> hd (dropWhile is_id_char ds) = CHR ''}'' then
              (case m (takeWhile is_id_char ds) of
                 Some v \<Rightarrow> v
               | None \<Rightarrow> c # d # takeWhile is_id_char ds @ ''}'')
              @ safe_substitute (tl (dropWhile is_id_char ds)) m
            else c # safe_substitute cs m))"
  by pat_completeness auto
termination
proof (relation "measure (\<lambda>(t, m). length t)")
  show "wf (measure (\<lambda>(t, m :: string \<rightharpoonup> string). length t))"
    by simp
next
  fix c :: char and cs :: string and m :: "string \<rightharpoonup> string"
  show "((cs, m), c # cs, m) \<in> measure (\<lambda>(t, m). length t)"
    by simp
next
  fix c :: char and cs :: string and m :: "string \<rightharpoonup> string" and d :: char and ds :: string
  assume "cs = d # ds"
  then show "((ds, m), c # cs, m) \<in> measure (\<lambda>(t, m). length t)"
    by simp
next
  fix c :: char and cs :: string and m :: "string \<rightharpoonup> string"
  have "length (dropWhile is_id_char cs) \<le> length cs"
    by (rule length_dropWhile_le)
  then show "((dropWhile is_id_char cs, m), c # cs, m) \<in> measure (\<lambda>(t, m). length t)"
    by simp
next
  fix c :: char and cs :: string and m :: "string \<rightharpoonup> string" and d :: char and ds :: string
  assume "cs = d # ds"
  moreover have "length (tl (dropWhile is_id_char ds)) \<le> length ds"
    using length_dropWhile_le [of is_id_char ds] by simp
  ultimately show "((tl (dropWhile is_id_char ds), m), c # cs, m) \<in> measure (\<lambda>(t, m). length t)"
    by simp
next
  fix c :: char and cs :: string and m :: "string \<rightharpoonup> string"
  show "((cs, m), c # cs, m) \<in> measure (\<lambda>(t, m). length t)"
    by simp
qed

definition ANCHOR :: string where
  "ANCHOR = ''<a href='' @ [CHR 0x22] @ ''$href'' @ [CHR 0x22] @ ''>$name</a><br>''"

definition INDEX :: string where
  "INDEX = ''<!DOCTYPE html><html><head><title>$title</title></head>''
         @ ''<body><h1>$title</h1>$anchors</body></html>''"

subsection \<open>The re module, for the patterns this program builds\<close>

datatype py_error = AttributeError | TypeError | re_error | ClientError string

text \<open>
  The program matches the request path against \<^verbatim>\<open>f'^{BASE_PATH}/([^/]+)$'\<close>, a pattern that
  contains the configured base path as pattern text. The model parses this pattern text and
  runs a backtracking matcher, for the following part of the pattern language: ordinary
  characters, \<^verbatim>\<open>.\<close>, \<^verbatim>\<open>^\<close>, \<^verbatim>\<open>$\<close>, the negated one-character set \<^verbatim>\<open>[^c]\<close>, capturing groups that
  are not repeated, and the greedy repeats \<^verbatim>\<open>*\<close> and \<^verbatim>\<open>+\<close> of a one-character item. A pattern
  that \<^verbatim>\<open>re\<close> refuses to compile is \<open>Invalid\<close>. Every other pattern is \<open>Other\<close>: what \<^verbatim>\<open>re\<close>
  does with it is a parameter of the model (\<open>other\<close> below), about which nothing is assumed.
\<close>

datatype atom = Lit char | AnyChar | NotChar char

datatype node = Atom atom | Star atom | Plus atom | Bol | Eol | GroupOpen nat | GroupClose nat

datatype parsed = Nodes "node list" | Invalid | Other

fun pcons :: "node \<Rightarrow> parsed \<Rightarrow> parsed" where
  "pcons x (Nodes xs) = Nodes (x # xs)"
| "pcons x Invalid = Invalid"
| "pcons x Other = Other"

definition is_repeat :: "char \<Rightarrow> bool" where
  "is_repeat c = (c \<in> set ''*+?{'')"

text \<open>
  \<open>re_parse n opn p\<close>: \<open>n\<close> is the number of the next group, \<open>opn\<close> the groups that are open.
  An item followed by \<^verbatim>\<open>*\<close> or \<^verbatim>\<open>+\<close> is repeated; a second \<^verbatim>\<open>*\<close> after a repeat is the
  error "multiple repeat", a repeat with no item before it the error "nothing to repeat".
  Lazy and possessive repeats, counted repeats, alternation, escapes, other sets and
  repeated groups are \<open>Other\<close>.
\<close>

fun re_parse :: "nat \<Rightarrow> nat list \<Rightarrow> string \<Rightarrow> parsed" and
    re_item :: "nat \<Rightarrow> nat list \<Rightarrow> atom \<Rightarrow> string \<Rightarrow> parsed" where
  "re_parse n opn [] = (if opn = [] then Nodes [] else Invalid)"
| "re_parse n opn (c # cs) =
     (if c = CHR ''^'' \<or> c = CHR ''$'' then
        (if cs \<noteq> [] \<and> hd cs \<in> set ''*+?'' then Invalid
         else if cs \<noteq> [] \<and> hd cs = CHR ''{'' then Other
         else pcons (if c = CHR ''^'' then Bol else Eol) (re_parse n opn cs))
      else if c = CHR ''.'' then re_item n opn AnyChar cs
      else if c = CHR ''('' then
        (if cs \<noteq> [] \<and> hd cs = CHR ''?'' then Other
         else pcons (GroupOpen n) (re_parse (Suc n) (n # opn) cs))
      else if c = CHR '')'' then
        (if opn = [] then Invalid
         else if cs \<noteq> [] \<and> is_repeat (hd cs) then Other
         else pcons (GroupClose (hd opn)) (re_parse n (tl opn) cs))
      else if c = CHR ''['' then
        (case cs of
           d # x # e # r \<Rightarrow>
             if d = CHR ''^'' \<and> x \<noteq> CHR '']'' \<and> x \<noteq> CHR 0x5C \<and> e = CHR '']''
             then re_item n opn (NotChar x) r else Other
         | _ \<Rightarrow> Other)
      else if c \<in> set ''*+?'' then Invalid
      else if c = CHR ''{'' \<or> c = CHR ''|'' \<or> c = CHR 0x5C then Other
      else re_item n opn (Lit c) cs)"
| "re_item n opn a [] = pcons (Atom a) (re_parse n opn [])"
| "re_item n opn a (q # r) =
     (if q = CHR ''*'' \<or> q = CHR ''+'' then
        (if r \<noteq> [] \<and> hd r = CHR ''*'' then Invalid
         else if r \<noteq> [] \<and> is_repeat (hd r) then Other
         else pcons (if q = CHR ''*'' then Star a else Plus a) (re_parse n opn r))
      else if q = CHR ''?'' \<or> q = CHR ''{'' then Other
      else pcons (Atom a) (re_parse n opn (q # r)))"

fun atom_ok :: "atom \<Rightarrow> char \<Rightarrow> bool" where
  "atom_ok (Lit c) d = (d = c)"
| "atom_ok AnyChar d = (d \<noteq> CHR 0x0A)"
| "atom_ok (NotChar c) d = (d \<noteq> c)"

text \<open>
  The matcher of \<^verbatim>\<open>re.match\<close> (anchored at position 0, no flags). \<open>b\<close> says that no
  character has been consumed; \<open>opn\<close> holds, for each open group, the input left when it
  opened; \<open>cp\<close> the text captured by each closed group. A greedy repeat takes a character
  first and gives it back when the rest of the pattern fails. \<^verbatim>\<open>$\<close> matches at the end and
  before a final newline.
\<close>

fun run :: "node list \<Rightarrow> bool \<Rightarrow> string \<Rightarrow> (nat \<rightharpoonup> string) \<Rightarrow> (nat \<rightharpoonup> string)
    \<Rightarrow> (nat \<rightharpoonup> string) option" where
  "run [] b s opn cp = Some cp"
| "run (Bol # ns) b s opn cp = (if b then run ns b s opn cp else None)"
| "run (Eol # ns) b s opn cp =
     (if s = [] \<or> s = [CHR 0x0A] then run ns b s opn cp else None)"
| "run (GroupOpen n # ns) b s opn cp = run ns b s (opn(n \<mapsto> s)) cp"
| "run (GroupClose n # ns) b s opn cp =
     (case opn n of
        None \<Rightarrow> None
      | Some st \<Rightarrow> run ns b s opn (cp(n \<mapsto> take (length st - length s) st)))"
| "run (Atom a # ns) b [] opn cp = None"
| "run (Atom a # ns) b (c # cs) opn cp =
     (if atom_ok a c then run ns False cs opn cp else None)"
| "run (Plus a # ns) b [] opn cp = None"
| "run (Plus a # ns) b (c # cs) opn cp =
     (if atom_ok a c then run (Star a # ns) False cs opn cp else None)"
| "run (Star a # ns) b [] opn cp = run ns b [] opn cp"
| "run (Star a # ns) b (c # cs) opn cp =
     (if atom_ok a c
      then (case run (Star a # ns) False cs opn cp of
              Some r \<Rightarrow> Some r
            | None \<Rightarrow> run ns b (c # cs) opn cp)
      else run ns b (c # cs) opn cp)"

type_synonym match_object = "nat \<rightharpoonup> string"

definition re_match ::
  "(string \<Rightarrow> string \<Rightarrow> py_error + match_object option) \<Rightarrow> string \<Rightarrow> string
   \<Rightarrow> py_error + match_object option" where
  \<comment> \<open>\<^verbatim>\<open>re.match(pattern, subject)\<close>: an error, \<open>None\<close>, or a match object (its groups).\<close>
  "re_match other pattern subject =
     (case re_parse 1 [] pattern of
        Nodes ns \<Rightarrow> Inr (run ns True subject Map.empty Map.empty)
      | Invalid \<Rightarrow> Inl re_error
      | Other \<Rightarrow> other pattern subject)"

section \<open>The object store\<close>

text \<open>
  The S3 client is external. The model keeps the bucket contents it writes and reads
  (\<open>objects\<close>, by bucket and key, as text: \<^verbatim>\<open>body.encode()\<close> when writing and
  \<^verbatim>\<open>.read().decode()\<close> when reading are the identity on it), takes the answers of the service
  as functions of the request (\<open>listing\<close>, \<open>signer\<close>, \<open>put_reply\<close>, \<open>get_fault\<close>), about which
  nothing is assumed, and records every request in \<open>calls\<close>.
  A listing is what the paginator yields when it is iterated: the pages it delivers, then
  possibly the error raised when the next page is fetched.
\<close>

record s3_object =
  Key :: string

record common_prefix =
  Prefix :: string

record page =
  Contents :: "s3_object list option"
  CommonPrefixes :: "common_prefix list option"

datatype s3_call =
    ListObjects string "string option" "string option"
      \<comment> \<open>Bucket, Prefix, Delimiter: one iteration of \<^verbatim>\<open>S3_PAGINATOR.paginate\<close>\<close>
  | GetObject string string
      \<comment> \<open>Bucket, Key\<close>
  | GeneratePresignedUrl string int string string string
      \<comment> \<open>ClientMethod, ExpiresIn, HttpMethod, Bucket, Key\<close>
  | PutObject string string string
      \<comment> \<open>Bucket, Key, Body\<close>

type_synonym put_object_output = "(string \<times> string) list"

record s3 =
  objects :: "string \<times> string \<rightharpoonup> string"
  listing :: "s3_call \<Rightarrow> page list \<times> py_error option"
  signer :: "s3_call \<Rightarrow> py_error + string"
  get_fault :: "s3_call \<Rightarrow> py_error option"
  put_reply :: "s3_call \<Rightarrow> py_error + put_object_output"
  calls :: "s3_call list"

definition paginate :: "s3 \<Rightarrow> s3_call \<Rightarrow> (page list \<times> py_error option) \<times> s3" where
  "paginate s req = (listing s req, s\<lparr>calls := calls s @ [req]\<rparr>)"

definition generate_presigned_url :: "s3 \<Rightarrow> s3_call \<Rightarrow> (py_error + string) \<times> s3" where
  "generate_presigned_url s req = (signer s req, s\<lparr>calls := calls s @ [req]\<rparr>)"

definition get_object :: "s3 \<Rightarrow> string \<Rightarrow> string \<Rightarrow> (py_error + string) \<times> s3" where
  "get_object s bucket k =
     (let req = GetObject bucket k; s' = s\<lparr>calls := calls s @ [req]\<rparr> in
      case get_fault s req of
        Some e \<Rightarrow> (Inl e, s')
      | None \<Rightarrow>
          (case objects s (bucket, k) of
             None \<Rightarrow> (Inl (ClientError ''NoSuchKey''), s')
           | Some b \<Rightarrow> (Inr b, s')))"

definition put_object ::
  "s3 \<Rightarrow> string \<Rightarrow> string \<Rightarrow> string \<Rightarrow> (py_error + put_object_output) \<times> s3" where
  "put_object s bucket k b =
     (let req = PutObject bucket k b; s' = s\<lparr>calls := calls s @ [req]\<rparr> in
      case put_reply s req of
        Inl e \<Rightarrow> (Inl e, s')
      | Inr out \<Rightarrow> (Inr out, s'\<lparr>objects := (objects s)((bucket, k) \<mapsto> b)\<rparr>))"

section \<open>index.py\<close>

subsection \<open>Configuration\<close>

text \<open>
  The process environment: \<^verbatim>\<open>BASE_PATH\<close> may be unset, \<^verbatim>\<open>S3_BUCKET\<close> is the bucket of the
  deployment, and \<^verbatim>\<open>S3_PRESIGNED_URL_TTL\<close>, when set, is taken as the integer that \<^verbatim>\<open>int\<close>
  reads from it.
\<close>

record environ =
  env_BASE_PATH :: "string option"
  env_S3_BUCKET :: string
  env_S3_PRESIGNED_URL_TTL :: "int option"

definition BASE_PATH :: "environ \<Rightarrow> string" where
  "BASE_PATH env = strip ''/'' (case env_BASE_PATH env of None \<Rightarrow> [] | Some v \<Rightarrow> v)"

definition S3_BUCKET :: "environ \<Rightarrow> string" where
  "S3_BUCKET env = env_S3_BUCKET env"

definition S3_PRESIGNED_URL_TTL :: "environ \<Rightarrow> int" where
  "S3_PRESIGNED_URL_TTL env = (case env_S3_PRESIGNED_URL_TTL env of None \<Rightarrow> 900 | Some t \<Rightarrow> t)"

subsection \<open>Responses\<close>

record response =
  statusCode :: int
  headers :: "(string \<rightharpoonup> string) option"
  body :: "string option"

definition proxy_reponse :: "string \<Rightarrow> string option \<Rightarrow> response" where
  "proxy_reponse b content_type =
     (let ct = (case content_type of
                  None \<Rightarrow> ''text/html''
                | Some t \<Rightarrow> if t = [] then ''text/html'' else t)
      in \<lparr>statusCode = 200,
          headers = Some [''Content-Type'' \<mapsto> ct @ ''; charset=UTF-8''],
          body = Some b\<rparr>)"

definition redirect :: "string \<Rightarrow> response" where
  "redirect p = \<lparr>statusCode = 301, headers = Some [''Location'' \<mapsto> p], body = None\<rparr>"

definition reject :: "int \<Rightarrow> response" where
  "reject status_code = \<lparr>statusCode = status_code, headers = None, body = None\<rparr>"

subsection \<open>Lambda helpers\<close>

definition get_index :: "environ \<Rightarrow> s3 \<Rightarrow> (py_error + response) \<times> s3" where
  "get_index env s =
     (case get_object s (S3_BUCKET env) ''index.html'' of
        (Inl e, s') \<Rightarrow> (Inl e, s')
      | (Inr b, s') \<Rightarrow> (Inr (proxy_reponse b None), s'))"

definition presign :: "environ \<Rightarrow> s3 \<Rightarrow> string \<Rightarrow> (py_error + string) \<times> s3" where
  "presign env s k =
     generate_presigned_url s
       (GeneratePresignedUrl ''get_object'' (S3_PRESIGNED_URL_TTL env) ''GET'' (S3_BUCKET env) k)"

fun presign_all :: "environ \<Rightarrow> s3 \<Rightarrow> string list \<Rightarrow> (py_error + string list) \<times> s3" where
  \<comment> \<open>\<^verbatim>\<open>[presign(key) for key in keys]\<close>: in order, stopping at the first error\<close>
  "presign_all env s [] = (Inr [], s)"
| "presign_all env s (k # ks) =
     (case presign env s k of
        (Inl e, s') \<Rightarrow> (Inl e, s')
      | (Inr u, s') \<Rightarrow>
          (case presign_all env s' ks of
             (Inl e, s'') \<Rightarrow> (Inl e, s'')
           | (Inr us, s'') \<Rightarrow> (Inr (u # us), s'')))"

definition page_keys :: "page list \<Rightarrow> string list" where
  \<comment> \<open>\<^verbatim>\<open>[key.get('Key') for page in pages for key in page.get('Contents') or []]\<close>\<close>
  "page_keys pages =
     concat (map (\<lambda>pg. map Key (case Contents pg of None \<Rightarrow> [] | Some ks \<Rightarrow> ks)) pages)"

definition package_anchors :: "string list \<Rightarrow> string list \<Rightarrow> string list" where
  "package_anchors hrefs names =
     map (\<lambda>(href, name). safe_substitute ANCHOR [''href'' \<mapsto> href, ''name'' \<mapsto> name])
       (zip hrefs names)"

definition get_package_index :: "environ \<Rightarrow> s3 \<Rightarrow> string \<Rightarrow> (py_error + response) \<times> s3" where
  "get_package_index env s name =
     (case paginate s (ListObjects (S3_BUCKET env) (Some (name @ ''/'')) None) of
        ((pages, Some e), s1) \<Rightarrow> (Inl e, s1)
      | ((pages, None), s1) \<Rightarrow>
          (let keys = page_keys pages in
           case presign_all env s1 keys of
             (Inl e, s2) \<Rightarrow> (Inl e, s2)
           | (Inr hrefs, s2) \<Rightarrow>
               (let names = map (\<lambda>x. snd (posixpath_split x)) keys;
                    anchors = package_anchors hrefs names;
                    b = safe_substitute INDEX
                          [''title'' \<mapsto> ''Links for '' @ name, ''anchors'' \<mapsto> concat anchors]
                in (Inr (proxy_reponse b None), s2))))"

definition get_response ::
  "(string \<Rightarrow> string \<Rightarrow> py_error + match_object option) \<Rightarrow> environ \<Rightarrow> s3 \<Rightarrow> string
   \<Rightarrow> (py_error + response) \<times> s3" where
  "get_response other env s p =
     (case re_match other (''^'' @ BASE_PATH env @ ''/([^/]+)$'') p of
        Inl e \<Rightarrow> (Inl e, s)
      | Inr mo \<Rightarrow>
          (let name = (case mo of None \<Rightarrow> None | Some groups \<Rightarrow> groups 1) in
           if name \<noteq> None \<and> name \<noteq> Some [] then get_package_index env s (the name)
           else if BASE_PATH env = p then get_index env s
           else if [] = p then (Inr (redirect (''/'' @ BASE_PATH env)), s)
           else (Inr (reject 403), s)))"

subsection \<open>Lambda handlers\<close>

text \<open>
  An event is the dictionary of the API Gateway proxy integration, read with \<^verbatim>\<open>event.get\<close>:
  a missing entry is \<open>None\<close>. The \<^verbatim>\<open>print\<close> calls of the handlers write to the log stream only
  and are left out, and so is the event of \<open>reindex_bucket\<close>, which is only printed.
\<close>

record event =
  httpMethod :: "string option"
  path :: "string option"

definition proxy_request ::
  "(string \<Rightarrow> string \<Rightarrow> py_error + match_object option) \<Rightarrow> environ \<Rightarrow> s3 \<Rightarrow> event
   \<Rightarrow> (py_error + response) \<times> s3" where
  "proxy_request other env s ev =
     (case path ev of
        None \<Rightarrow> (Inl AttributeError, s)
      | Some p0 \<Rightarrow>
          (let p = strip ''/'' p0 in
           if httpMethod ev \<in> {Some ''GET'', Some ''HEAD''}
           then get_response other env s p
           else (Inr (reject 403), s)))"

fun page_pkgs :: "page list \<Rightarrow> py_error + string list" where
  \<comment> \<open>\<^verbatim>\<open>x.get('Prefix').strip('/') for page in pages for x in page.get('CommonPrefixes')\<close>:
      iterating \<^verbatim>\<open>None\<close> raises \<^verbatim>\<open>TypeError\<close>\<close>
  "page_pkgs [] = Inr []"
| "page_pkgs (pg # pgs) =
     (case CommonPrefixes pg of
        None \<Rightarrow> Inl TypeError
      | Some xs \<Rightarrow>
          (case page_pkgs pgs of
             Inl e \<Rightarrow> Inl e
           | Inr pkgs \<Rightarrow> Inr (map (\<lambda>x. strip ''/'' (Prefix x)) xs @ pkgs)))"

definition index_anchors :: "string list \<Rightarrow> string list" where
  "index_anchors pkgs =
     map (\<lambda>pkg. safe_substitute ANCHOR [''href'' \<mapsto> pkg, ''name'' \<mapsto> pkg]) pkgs"

definition reindex_bucket :: "environ \<Rightarrow> s3 \<Rightarrow> (py_error + put_object_output) \<times> s3" where
  "reindex_bucket env s =
     (case paginate s (ListObjects (S3_BUCKET env) None (Some ''/'')) of
        ((pages, err), s1) \<Rightarrow>
          (case page_pkgs pages of
             Inl e \<Rightarrow> (Inl e, s1)
           | Inr pkgs \<Rightarrow>
               (case err of
                  Some e \<Rightarrow> (Inl e, s1)
                | None \<Rightarrow>
                    (let b = safe_substitute INDEX
                               [''title'' \<mapsto> ''Simple index'',
                                ''anchors'' \<mapsto> concat (index_anchors pkgs)]
                     in put_object s1 (S3_BUCKET env) ''index.html'' b))))"

section \<open>Notions used to state the properties\<close>

text \<open>
  The characters that have a meaning of their own in a pattern of \<^verbatim>\<open>re\<close>, and the part of the
  route pattern that follows the base path.
\<close>

definition re_special :: "char \<Rightarrow> bool" where
  "re_special c = (c \<in> set ''.^$*+?{}[]|()'' \<or> c = CHR 0x5C)"

definition route_suffix :: "node list" where
  "route_suffix = [Atom (Lit (CHR ''/'')), GroupOpen 1, Plus (NotChar (CHR ''/'')), GroupClose 1, Eol]"

text \<open>
  The renderer and the \<open>ok\<close> envelope in the words of the specification (sections 4.2 and
  4.3), and the request that \<open>presign\<close> sends for a key.
\<close>

definition renderAnchor :: "string \<Rightarrow> string \<Rightarrow> string" where
  "renderAnchor href name = ''<a href='' @ [CHR 0x22] @ href @ [CHR 0x22] @ ''>'' @ name @ ''</a><br>''"

definition renderIndex :: "string \<Rightarrow> string list \<Rightarrow> string" where
  "renderIndex title anchors =
     ''<!DOCTYPE html><html><head><title>'' @ title @ ''</title></head><body><h1>'' @ title
     @ ''</h1>'' @ concat anchors @ ''</body></html>''"

definition ok :: "string \<Rightarrow> response" where
  "ok b = \<lparr>statusCode = 200, headers = Some [''Content-Type'' \<mapsto> ''text/html; charset=UTF-8''],
          body = Some b\<rparr>"

definition sign_request :: "environ \<Rightarrow> string \<Rightarrow> s3_call" where
  "sign_request env k =
     GeneratePresignedUrl ''get_object'' (S3_PRESIGNED_URL_TTL env) ''GET'' (S3_BUCKET env) k"

text \<open>
  What a listing delivers, in the words of the specification (sections 4.5 and 4.6, step 1):
  the keys, and the common prefixes, of all its pages, concatenated in the order of the
  pages; a page without the entry contributes none.
\<close>

fun listed_keys :: "page list \<Rightarrow> string list" where
  "listed_keys [] = []"
| "listed_keys (pg # pgs) =
     (case Contents pg of None \<Rightarrow> [] | Some entries \<Rightarrow> map Key entries) @ listed_keys pgs"

fun listed_prefixes :: "page list \<Rightarrow> string list" where
  "listed_prefixes [] = []"
| "listed_prefixes (pg # pgs) =
     (case CommonPrefixes pg of None \<Rightarrow> [] | Some entries \<Rightarrow> map Prefix entries)
     @ listed_prefixes pgs"

text \<open>A deployment and a store, for evaluating the properties on concrete inputs.\<close>

definition demo_env :: environ where
  "demo_env = \<lparr>env_BASE_PATH = Some ''/simple/'', env_S3_BUCKET = ''pypi'',
                env_S3_PRESIGNED_URL_TTL = None\<rparr>"

definition demo_package_pages :: "page list" where
  "demo_package_pages =
     [\<lparr>Contents = Some [\<lparr>Key = ''pkg/pkg-1.0.tar.gz''\<rparr>], CommonPrefixes = None\<rparr>,
      \<lparr>Contents = None, CommonPrefixes = None\<rparr>,
      \<lparr>Contents = Some [\<lparr>Key = ''pkg/pkg-1.1.tar.gz''\<rparr>], CommonPrefixes = None\<rparr>]"

definition demo_root_pages :: "page list" where
  "demo_root_pages =
     [\<lparr>Contents = Some [\<lparr>Key = ''index.html''\<rparr>],
       CommonPrefixes = Some [\<lparr>Prefix = ''a/''\<rparr>, \<lparr>Prefix = ''b/''\<rparr>]\<rparr>,
      \<lparr>Contents = None, CommonPrefixes = Some [\<lparr>Prefix = ''c/''\<rparr>]\<rparr>]"

definition demo_empty_pages :: "page list" where
  "demo_empty_pages =
     [\<lparr>Contents = None, CommonPrefixes = None\<rparr>, \<lparr>Contents = Some [], CommonPrefixes = None\<rparr>]"

definition demo_signer :: "s3_call \<Rightarrow> py_error + string" where
  "demo_signer req =
     (case req of
        GeneratePresignedUrl m t h b k \<Rightarrow>
          Inr (''https://'' @ b @ ''.s3.test/'' @ k
               @ (if t = 900 then ''?X-Amz-Expires=900'' else ''?X-Amz-Expires=60''))
      | _ \<Rightarrow> Inl (ClientError ''BadRequest''))"

definition demo_store :: s3 where
  "demo_store =
     \<lparr>objects = [(''pypi'', ''index.html'') \<mapsto> ''stale''],
      listing = (\<lambda>req.
        if req = ListObjects ''pypi'' (Some ''pkg/'') None then (demo_package_pages, None)
        else if req = ListObjects ''pypi'' None (Some ''/'') then (demo_root_pages, None)
        else (demo_empty_pages, None)),
      signer = demo_signer,
      get_fault = (\<lambda>req. None),
      put_reply = (\<lambda>req. Inr [(''ETag'', ''e1'')]),
      calls = []\<rparr>"

definition demo_other :: "string \<Rightarrow> string \<Rightarrow> py_error + match_object option" where
  "demo_other pattern subject = Inr None"

definition demo_empty_bucket :: s3 where
  "demo_empty_bucket =
     demo_store\<lparr>listing := (\<lambda>req. ([\<lparr>Contents = None, CommonPrefixes = None\<rparr>], None))\<rparr>"

definition demo_env_ttl :: "int \<Rightarrow> environ" where
  "demo_env_ttl t = demo_env\<lparr>env_S3_PRESIGNED_URL_TTL := Some t\<rparr>"

definition wildcard_env :: environ where
  "wildcard_env = demo_env\<lparr>env_BASE_PATH := Some ''.*''\<rparr>"

definition star_env :: environ where
  "star_env = demo_env\<lparr>env_BASE_PATH := Some ''*''\<rparr>"

definition default_env :: environ where
  "default_env = \<lparr>env_BASE_PATH = None, env_S3_BUCKET = ''pypi'', env_S3_PRESIGNED_URL_TTL = None\<rparr>"

definition demo_unsorted_pages :: "page list" where
  "demo_unsorted_pages =
     [\<lparr>Contents = Some [\<lparr>Key = ''lib/lib-2.0.tar.gz''\<rparr>, \<lparr>Key = ''lib/lib-1.0.tar.gz''\<rparr>],
       CommonPrefixes = None\<rparr>,
      \<lparr>Contents = None, CommonPrefixes = None\<rparr>,
      \<lparr>Contents = Some [\<lparr>Key = ''lib/lib-2.0.tar.gz''\<rparr>], CommonPrefixes = None\<rparr>]"

definition demo_unsorted_store :: s3 where
  "demo_unsorted_store = demo_store\<lparr>listing := (\<lambda>req. (demo_unsorted_pages, None))\<rparr>"

definition demo_root_keys_pages :: "page list" where
  "demo_root_keys_pages =
     [\<lparr>Contents = Some [\<lparr>Key = ''index.html''\<rparr>],
       CommonPrefixes = Some [\<lparr>Prefix = ''a/''\<rparr>, \<lparr>Prefix = ''b/''\<rparr>, \<lparr>Prefix = ''c/''\<rparr>]\<rparr>,
      \<lparr>Contents = Some [\<lparr>Key = ''notes.txt''\<rparr>], CommonPrefixes = None\<rparr>]"

definition demo_root_keys_store :: s3 where
  "demo_root_keys_store = demo_store\<lparr>listing := (\<lambda>req. (demo_root_keys_pages, None))\<rparr>"

definition demo_outage_store :: s3 where
  "demo_outage_store =
     demo_store\<lparr>listing := (\<lambda>req. ([], Some (ClientError ''ServiceUnavailable'')))\<rparr>"

section \<open>Auxiliary facts\<close>

lemma ANCHOR_subst:
  "safe_substitute ANCHOR [''href'' \<mapsto> h, ''name'' \<mapsto> n]
     = ''<a href='' @ [CHR 0x22] @ h @ [CHR 0x22] @ ''>'' @ n @ ''</a><br>''"
  by (simp add: ANCHOR_def is_id_start_def is_id_char_def)

lemma INDEX_subst:
  "safe_substitute INDEX [''title'' \<mapsto> t, ''anchors'' \<mapsto> a]
     = ''<!DOCTYPE html><html><head><title>'' @ t @ ''</title></head><body><h1>'' @ t
       @ ''</h1>'' @ a @ ''</body></html>''"
  by (simp add: INDEX_def is_id_start_def is_id_char_def)

lemma presign_all_ok:
  "(\<And>k. k \<in> set ks \<Longrightarrow>
      signer s (GeneratePresignedUrl ''get_object'' (S3_PRESIGNED_URL_TTL env) ''GET''
                 (S3_BUCKET env) k) = Inr (url k))
   \<Longrightarrow> presign_all env s ks
       = (Inr (map url ks),
          s\<lparr>calls := calls s @ map (GeneratePresignedUrl ''get_object''
                   (S3_PRESIGNED_URL_TTL env) ''GET'' (S3_BUCKET env)) ks\<rparr>)"
proof (induction ks arbitrary: s)
  case Nil
  then show ?case by simp
next
  case (Cons k ks)
  let ?req = "GeneratePresignedUrl ''get_object'' (S3_PRESIGNED_URL_TTL env) ''GET'' (S3_BUCKET env)"
  let ?s' = "s\<lparr>calls := calls s @ [?req k]\<rparr>"
  have first: "presign env s k = (Inr (url k), ?s')"
    using Cons.prems [of k] by (simp add: presign_def generate_presigned_url_def)
  have "\<And>k'. k' \<in> set ks \<Longrightarrow> signer ?s' (?req k') = Inr (url k')"
    using Cons.prems by simp
  then have "presign_all env ?s' ks
      = (Inr (map url ks), ?s'\<lparr>calls := calls ?s' @ map ?req ks\<rparr>)"
    by (rule Cons.IH)
  with first show ?case by simp
qed

lemma page_pkgs_ok:
  "map CommonPrefixes pages = map Some pss
   \<Longrightarrow> page_pkgs pages = Inr (map (\<lambda>x. strip ''/'' (Prefix x)) (concat pss))"
proof (induction pages arbitrary: pss)
  case Nil
  then show ?case by simp
next
  case (Cons pg pages)
  then obtain ps pss' where pss: "pss = ps # pss'" "CommonPrefixes pg = Some ps"
      "map CommonPrefixes pages = map Some pss'"
    by (cases pss) auto
  with Cons.IH [of pss'] show ?case by simp
qed

lemma page_pkgs_missing:
  "pg \<in> set pages \<Longrightarrow> CommonPrefixes pg = None \<Longrightarrow> page_pkgs pages = Inl TypeError"
proof (induction pages)
  case Nil
  then show ?case by simp
next
  case (Cons q pages)
  show ?case
  proof (cases "CommonPrefixes q")
    case None
    then show ?thesis by simp
  next
    case (Some xs)
    with Cons have "page_pkgs pages = Inl TypeError" by auto
    with Some show ?thesis by simp
  qed
qed

lemma page_keys_empty:
  "(\<And>pg. pg \<in> set pages \<Longrightarrow> Contents pg = None \<or> Contents pg = Some [])
   \<Longrightarrow> page_keys pages = []"
proof -
  assume h: "\<And>pg. pg \<in> set pages \<Longrightarrow> Contents pg = None \<or> Contents pg = Some []"
  have "(case Contents pg of None \<Rightarrow> [] | Some ks \<Rightarrow> ks) = []" if "pg \<in> set pages" for pg
    using h [OF that] by auto
  then show ?thesis
    by (simp add: page_keys_def)
qed

lemma proxy_reponse_ok: "proxy_reponse b None = ok b"
  by (simp add: proxy_reponse_def ok_def)

lemma package_anchors_map:
  "package_anchors (map url ks) (map nm ks) = map (\<lambda>k. renderAnchor (url k) (nm k)) ks"
  by (induction ks) (simp_all add: package_anchors_def ANCHOR_subst renderAnchor_def del: fun_upd_apply)

lemma get_package_index_ok:
  assumes "listing s (ListObjects (S3_BUCKET env) (Some (p @ ''/'')) None) = (pages, None)"
    and "\<And>k. k \<in> set (page_keys pages) \<Longrightarrow> signer s (sign_request env k) = Inr (url k)"
  shows "get_package_index env s p
     = (Inr (ok (renderIndex (''Links for '' @ p)
           (map (\<lambda>k. renderAnchor (url k) (snd (posixpath_split k))) (page_keys pages)))),
        s\<lparr>calls := calls s @ ListObjects (S3_BUCKET env) (Some (p @ ''/'')) None
                       # map (sign_request env) (page_keys pages)\<rparr>)"
proof -
  let ?req = "ListObjects (S3_BUCKET env) (Some (p @ ''/'')) None"
  let ?s1 = "s\<lparr>calls := calls s @ [?req]\<rparr>"
  have pg: "paginate s ?req = ((pages, None), ?s1)"
    using assms(1) by (simp add: paginate_def)
  have "\<And>k. k \<in> set (page_keys pages) \<Longrightarrow>
      signer ?s1 (GeneratePresignedUrl ''get_object'' (S3_PRESIGNED_URL_TTL env) ''GET''
                 (S3_BUCKET env) k) = Inr (url k)"
    using assms(2) by (simp add: sign_request_def)
  then have ps: "presign_all env ?s1 (page_keys pages)
      = (Inr (map url (page_keys pages)),
         ?s1\<lparr>calls := calls ?s1 @ map (sign_request env) (page_keys pages)\<rparr>)"
    unfolding sign_request_def by (rule presign_all_ok)
  show ?thesis
    unfolding get_package_index_def pg
    by (simp add: ps Let_def package_anchors_map INDEX_subst renderIndex_def proxy_reponse_ok
        del: fun_upd_apply)
qed

lemma parse_suffix: "re_parse 1 [] ''/([^/]+)$'' = Nodes route_suffix"
  by (simp add: route_suffix_def is_repeat_def)

lemma re_item_plain:
  "q \<notin> set ''*+?{'' \<Longrightarrow> re_item n opn a (q # r) = pcons (Atom a) (re_parse n opn (q # r))"
  by auto

lemma re_parse_plain:
  "\<not> re_special c \<Longrightarrow> re_parse n opn (c # cs) = re_item n opn (Lit c) cs"
  by (auto simp: re_special_def)

lemma parse_literal_prefix:
  "\<forall>c\<in>set b. \<not> re_special c
   \<Longrightarrow> re_parse n opn (b @ ''/([^/]+)$'')
       = foldr pcons (map (\<lambda>c. Atom (Lit c)) b) (re_parse n opn ''/([^/]+)$'')"
proof (induction b)
  case Nil
  then show ?case by simp
next
  case (Cons c b)
  then have c: "\<not> re_special c" and b: "\<forall>c\<in>set b. \<not> re_special c"
    by simp_all
  obtain q r where qr: "b @ ''/([^/]+)$'' = q # r" and q: "q \<notin> set ''*+?{''"
  proof (cases b)
    case Nil
    then show ?thesis using that [of "CHR ''/''" "''([^/]+)$''"] by simp
  next
    case (Cons d b')
    with b have "\<not> re_special d" by simp
    then have "d \<notin> set ''*+?{''" by (auto simp: re_special_def)
    with Cons show ?thesis using that [of d "b' @ ''/([^/]+)$''"] by simp
  qed
  have "re_parse n opn ((c # b) @ ''/([^/]+)$'') = re_item n opn (Lit c) (q # r)"
    using re_parse_plain [OF c] qr by simp
  also have "\<dots> = pcons (Atom (Lit c)) (re_parse n opn (q # r))"
    by (rule re_item_plain [OF q])
  finally show ?case
    using Cons.IH [OF b] qr by simp
qed

lemma foldr_pcons_Nodes: "foldr pcons xs (Nodes ys) = Nodes (xs @ ys)"
  by (induction xs) simp_all

lemma parse_route_literal:
  assumes "\<forall>c\<in>set b. \<not> re_special c"
  shows "re_parse 1 [] (''^'' @ b @ ''/([^/]+)$'')
           = Nodes (Bol # map (\<lambda>c. Atom (Lit c)) b @ route_suffix)"
proof -
  obtain q r where qr: "b @ ''/([^/]+)$'' = q # r" and q: "q \<notin> set ''*+?{''"
  proof (cases b)
    case Nil
    then show ?thesis using that [of "CHR ''/''" "''([^/]+)$''"] by simp
  next
    case (Cons d b')
    with assms have "\<not> re_special d" by simp
    then have "d \<notin> set ''*+?{''" by (auto simp: re_special_def)
    with Cons show ?thesis using that [of d "b' @ ''/([^/]+)$''"] by simp
  qed
  have "re_parse 1 [] (''^'' @ b @ ''/([^/]+)$'') = pcons Bol (re_parse 1 [] (b @ ''/([^/]+)$''))"
    using qr q by auto
  then show ?thesis
    by (simp only: parse_literal_prefix [OF assms] parse_suffix foldr_pcons_Nodes pcons.simps)
qed

lemma run_literal_prefix:
  "run (map (\<lambda>c. Atom (Lit c)) b @ ns) f (b @ rest) opn cp
     = run ns (f \<and> b = []) rest opn cp"
  by (induction b arbitrary: f) simp_all

lemma run_star_slash:
  "run [Star (NotChar (CHR ''/'')), GroupClose 1, Eol] f (u @ CHR ''/'' # v) opn cp = None"
proof (induction u arbitrary: f)
  case Nil
  then show ?case by (simp split: option.splits)
next
  case (Cons c u)
  then show ?case by (simp split: option.splits)
qed

lemma run_suffix_two_segments:
  "run route_suffix f (CHR ''/'' # seg1 @ CHR ''/'' # seg2) opn cp = None"
proof (cases seg1)
  case Nil
  then show ?thesis by (simp add: route_suffix_def)
next
  case (Cons c u)
  then show ?thesis
    using run_star_slash [of False u seg2 "opn(1 \<mapsto> seg1 @ CHR ''/'' # seg2)" cp]
    by (simp add: route_suffix_def)
qed

lemma run_empty_subject:
  "run ns f [] opn cp = Some g
   \<Longrightarrow> (\<And>n v. opn n = Some v \<Longrightarrow> v = [])
   \<Longrightarrow> (\<And>n v. cp n = Some v \<Longrightarrow> v = [])
   \<Longrightarrow> g n = Some v \<Longrightarrow> v = []"
proof (induction ns arbitrary: f opn cp)
  case Nil
  then show ?case by simp
next
  case (Cons x ns)
  show ?case
  proof (cases x)
    case (Atom a)
    with Cons.prems show ?thesis by simp
  next
    case (Star a)
    with Cons show ?thesis by simp
  next
    case (Plus a)
    with Cons.prems show ?thesis by simp
  next
    case Bol
    with Cons.prems(1) have "run ns f [] opn cp = Some g"
      by (simp split: if_splits)
    then show ?thesis
      using Cons.IH Cons.prems by blast
  next
    case Eol
    with Cons.prems(1) have "run ns f [] opn cp = Some g"
      by (simp split: if_splits)
    then show ?thesis
      using Cons.IH Cons.prems by blast
  next
    case (GroupOpen k)
    with Cons.prems(1) have r: "run ns f [] (opn(k \<mapsto> [])) cp = Some g"
      by simp
    have "\<And>n v. (opn(k \<mapsto> [])) n = Some v \<Longrightarrow> v = []"
      using Cons.prems(2) by (auto split: if_splits)
    then show ?thesis
      using Cons.IH [OF r] Cons.prems(3,4) by blast
  next
    case (GroupClose k)
    with Cons.prems(1) obtain st where st: "opn k = Some st"
        and r: "run ns f [] opn (cp(k \<mapsto> take (length st) st)) = Some g"
      by (auto split: option.splits)
    from st Cons.prems(2) have "st = []" by blast
    then have "\<And>n v. (cp(k \<mapsto> take (length st) st)) n = Some v \<Longrightarrow> v = []"
      using Cons.prems(3) by (auto split: if_splits)
    then show ?thesis
      using Cons.IH [OF r] Cons.prems(2,4) by blast
  qed
qed

lemma demo_empty_keys: "page_keys demo_empty_pages = []"
  by (simp add: page_keys_def demo_empty_pages_def)

lemma demo_empty_listing:
  "listing demo_store (ListObjects (S3_BUCKET demo_env) (Some (''nothing'' @ ''/'')) None)
     = (demo_empty_pages, None)"
  by (simp add: demo_store_def demo_env_def S3_BUCKET_def)

lemma reindex_bucket_ok:
  assumes "listing s (ListObjects (S3_BUCKET env) None (Some ''/'')) = (pages, None)"
    and "map CommonPrefixes pages = map Some pss"
    and "doc = renderIndex ''Simple index''
                 (map (\<lambda>x. renderAnchor (strip ''/'' (Prefix x)) (strip ''/'' (Prefix x)))
                    (concat pss))"
    and "put_reply s (PutObject (S3_BUCKET env) ''index.html'' doc) = Inr out"
  shows "reindex_bucket env s
           = (Inr out,
              s\<lparr>calls := calls s @ [ListObjects (S3_BUCKET env) None (Some ''/''),
                                    PutObject (S3_BUCKET env) ''index.html'' doc],
                objects := (objects s)((S3_BUCKET env, ''index.html'') \<mapsto> doc)\<rparr>)"
proof -
  let ?req = "ListObjects (S3_BUCKET env) None (Some ''/'')"
  let ?s1 = "s\<lparr>calls := calls s @ [?req]\<rparr>"
  have pg: "paginate s ?req = ((pages, None), ?s1)"
    using assms(1) by (simp add: paginate_def)
  have anchors: "index_anchors (map (\<lambda>x. strip ''/'' (Prefix x)) (concat pss))
      = map (\<lambda>x. renderAnchor (strip ''/'' (Prefix x)) (strip ''/'' (Prefix x))) (concat pss)"
    by (simp add: index_anchors_def ANCHOR_subst renderAnchor_def del: fun_upd_apply)
  have b: "safe_substitute INDEX
             [''title'' \<mapsto> ''Simple index'',
              ''anchors'' \<mapsto> concat (index_anchors (map (\<lambda>x. strip ''/'' (Prefix x)) (concat pss)))]
           = doc"
    unfolding anchors INDEX_subst assms(3) renderIndex_def by simp
  have put: "put_object ?s1 (S3_BUCKET env) ''index.html'' doc
      = (Inr out, ?s1\<lparr>calls := calls ?s1 @ [PutObject (S3_BUCKET env) ''index.html'' doc],
                      objects := (objects ?s1)((S3_BUCKET env, ''index.html'') \<mapsto> doc)\<rparr>)"
    using assms(4) by (simp add: put_object_def Let_def)
  show ?thesis
    unfolding reindex_bucket_def pg
    by (simp add: page_pkgs_ok [OF assms(2)] Let_def b put del: fun_upd_apply)
qed

lemma demo_root_listing:
  "listing demo_store (ListObjects (S3_BUCKET demo_env) None (Some ''/''))
     = (demo_root_pages, None)"
  by (simp add: demo_store_def demo_env_def S3_BUCKET_def)

lemma demo_root_prefixes:
  "map CommonPrefixes demo_root_pages
     = map Some [[\<lparr>Prefix = ''a/''\<rparr>, \<lparr>Prefix = ''b/''\<rparr>], [\<lparr>Prefix = ''c/''\<rparr>]]"
  by (simp add: demo_root_pages_def)

lemma run_star_to_end:
  "CHR ''/'' \<notin> set u \<Longrightarrow> opn 1 = Some st
   \<Longrightarrow> run [Star (NotChar (CHR ''/'')), GroupClose 1, Eol] f u opn cp = Some (cp(1 \<mapsto> st))"
  by (induction u arbitrary: f) auto

lemma run_suffix_one_segment:
  assumes "seg \<noteq> []" and "CHR ''/'' \<notin> set seg"
  shows "run route_suffix f (CHR ''/'' # seg) opn cp = Some (cp(1 \<mapsto> seg))"
proof -
  from assms obtain c u where seg: "seg = c # u" and c: "c \<noteq> CHR ''/''" and u: "CHR ''/'' \<notin> set u"
    by (cases seg) auto
  have "run [Star (NotChar (CHR ''/'')), GroupClose 1, Eol] False u (opn(1 \<mapsto> seg)) cp
      = Some (cp(1 \<mapsto> seg))"
    by (rule run_star_to_end [OF u]) simp
  then show ?thesis
    using c by (simp add: route_suffix_def seg)
qed

lemma re_match_route_literal:
  assumes "\<forall>c\<in>set (BASE_PATH env). \<not> re_special c"
  shows "re_match other (''^'' @ BASE_PATH env @ ''/([^/]+)$'') (BASE_PATH env @ rest)
           = Inr (run route_suffix (BASE_PATH env = []) rest Map.empty Map.empty)"
  unfolding re_match_def parse_route_literal [OF assms]
  by (simp add: run_literal_prefix)

lemma route_single_segment:
  assumes "\<forall>c\<in>set (BASE_PATH env). \<not> re_special c"
    and "seg \<noteq> []" and "CHR ''/'' \<notin> set seg"
  shows "get_response other env s (BASE_PATH env @ ''/'' @ seg) = get_package_index env s seg"
  unfolding get_response_def re_match_route_literal [OF assms(1)]
  using assms(2) by (simp add: run_suffix_one_segment [OF assms(2,3)])

lemma demo_base_path: "BASE_PATH demo_env = ''simple''"
  by (simp add: BASE_PATH_def demo_env_def strip_def)

lemma simple_is_literal: "\<forall>c\<in>set ''simple''. \<not> re_special c"
  by (simp add: re_special_def)

lemma wildcard_base_path: "BASE_PATH wildcard_env = ''.*''"
  by (simp add: BASE_PATH_def wildcard_env_def strip_def)

lemma wildcard_match:
  "re_match other ''^.*/([^/]+)$'' ''.*/a/b'' = Inr (Some [1 \<mapsto> ''b''])"
  by (simp add: re_match_def is_repeat_def)

lemma wildcard_package_index:
  "get_package_index wildcard_env demo_store ''b''
     = (Inr (ok (renderIndex ''Links for b'' [])),
        demo_store\<lparr>calls := [ListObjects ''pypi'' (Some ''b/'') None]\<rparr>)"
proof -
  have bk: "S3_BUCKET wildcard_env = ''pypi''"
    by (simp add: wildcard_env_def demo_env_def S3_BUCKET_def)
  have l: "listing demo_store (ListObjects (S3_BUCKET wildcard_env) (Some (''b'' @ ''/'')) None)
      = (demo_empty_pages, None)"
    by (simp add: bk demo_store_def)
  have "\<And>k. k \<in> set (page_keys demo_empty_pages)
      \<Longrightarrow> signer demo_store (sign_request wildcard_env k) = Inr []"
    by (simp add: demo_empty_keys)
  from get_package_index_ok [OF l this] show ?thesis
    by (simp add: demo_empty_keys bk demo_store_def)
qed

lemma no_group_on_empty_path:
  assumes "re_parse 1 [] pattern = Nodes ns"
  shows "\<exists>mo. re_match other pattern [] = Inr mo
           \<and> (case mo of None \<Rightarrow> None | Some groups \<Rightarrow> groups 1) \<in> {None, Some []}"
proof -
  have rm: "re_match other pattern [] = Inr (run ns True [] Map.empty Map.empty)"
    unfolding re_match_def assms by simp
  show ?thesis
  proof (cases "run ns True [] Map.empty Map.empty")
    case None
    with rm show ?thesis
      by simp
  next
    case (Some g)
    have "g 1 = Some v \<Longrightarrow> v = []" for v
      using run_empty_subject [OF Some, of 1 v] by simp
    then have "g 1 \<in> {None, Some []}"
      by (cases "g 1") auto
    with Some rm show ?thesis
      by simp
  qed
qed

lemma redirect_when_pattern_compiles:
  assumes "re_parse 1 [] (''^'' @ BASE_PATH env @ ''/([^/]+)$'') = Nodes ns"
    and "BASE_PATH env \<noteq> []"
  shows "get_response other env s [] = (Inr (redirect (''/'' @ BASE_PATH env)), s)"
proof -
  from no_group_on_empty_path [OF assms(1), of other]
  obtain mo where mo: "re_match other (''^'' @ BASE_PATH env @ ''/([^/]+)$'') [] = Inr mo"
    and g: "(case mo of None \<Rightarrow> None | Some groups \<Rightarrow> groups 1) \<in> {None, Some []}"
    by blast
  show ?thesis
    unfolding get_response_def mo using g assms(2) by auto
qed

lemma star_base_path: "BASE_PATH star_env = ''*''"
  by (simp add: BASE_PATH_def star_env_def strip_def)

lemma default_base_path: "BASE_PATH default_env = []"
  by (simp add: BASE_PATH_def default_env_def strip_def)

lemma page_keys_listed: "page_keys pages = listed_keys pages"
  by (induction pages) (simp_all add: page_keys_def split: option.splits)

lemma demo_unsorted_keys:
  "listed_keys demo_unsorted_pages
     = [''lib/lib-2.0.tar.gz'', ''lib/lib-1.0.tar.gz'', ''lib/lib-2.0.tar.gz'']"
  by (simp add: demo_unsorted_pages_def)

lemma demo_unsorted_sign:
  "signer demo_unsorted_store (sign_request demo_env k)
     = Inr (''https://pypi.s3.test/'' @ k @ ''?X-Amz-Expires=900'')"
  by (simp add: demo_unsorted_store_def demo_store_def demo_signer_def sign_request_def
      demo_env_def S3_PRESIGNED_URL_TTL_def S3_BUCKET_def)

lemma demo_unsorted_listing:
  "listing demo_unsorted_store (ListObjects (S3_BUCKET demo_env) (Some (''lib'' @ ''/'')) None)
     = (demo_unsorted_pages, None)"
  by (simp add: demo_unsorted_store_def)

lemma basename_lib_1: "snd (posixpath_split ''lib/lib-1.0.tar.gz'') = ''lib-1.0.tar.gz''"
  by (simp add: posixpath_split_def)

lemma basename_lib_2: "snd (posixpath_split ''lib/lib-2.0.tar.gz'') = ''lib-2.0.tar.gz''"
  by (simp add: posixpath_split_def)

subsection \<open>Where the reindexer and the router do what the specification says\<close>

lemma reindex_three_prefixes_written:
  assumes "listing s (ListObjects (S3_BUCKET env) None (Some ''/'')) = (pages, None)"
    and "map CommonPrefixes pages = map Some pss"
    and "map Prefix (concat pss) = [''a/'', ''b/'', ''c/'']"
    and "doc = ''<!DOCTYPE html><html><head><title>Simple index</title></head>''
             @ ''<body><h1>Simple index</h1>''
             @ renderAnchor ''a'' ''a'' @ renderAnchor ''b'' ''b'' @ renderAnchor ''c'' ''c''
             @ ''</body></html>''"
    and "put_reply s (PutObject (S3_BUCKET env) ''index.html'' doc) = Inr out"
  shows "reindex_bucket env s
           = (Inr out,
              s\<lparr>calls := calls s @ [ListObjects (S3_BUCKET env) None (Some ''/''),
                                    PutObject (S3_BUCKET env) ''index.html'' doc],
                objects := (objects s)((S3_BUCKET env, ''index.html'') \<mapsto> doc)\<rparr>)"
proof -
  from assms(3) obtain x y z where xs: "concat pss = [x, y, z]"
    and px: "Prefix x = ''a/''" "Prefix y = ''b/''" "Prefix z = ''c/''"
    by auto
  have st: "strip ''/'' ''a/'' = ''a''" "strip ''/'' ''b/'' = ''b''" "strip ''/'' ''c/'' = ''c''"
    by (simp_all add: strip_def)
  have "doc = renderIndex ''Simple index''
                 (map (\<lambda>x. renderAnchor (strip ''/'' (Prefix x)) (strip ''/'' (Prefix x)))
                    (concat pss))"
    unfolding xs assms(4) by (simp add: px st renderIndex_def)
  from reindex_bucket_ok [OF assms(1,2) this assms(5)] show ?thesis .
qed

lemma reindex_three_prefixes_written_demo:
  "objects demo_store (''pypi'', ''index.html'') = Some ''stale''
   \<and> fst (reindex_bucket demo_env demo_store) = Inr [(''ETag'', ''e1'')]
   \<and> objects (snd (reindex_bucket demo_env demo_store)) (''pypi'', ''index.html'')
       = Some (''<!DOCTYPE html><html><head><title>Simple index</title></head>''
             @ ''<body><h1>Simple index</h1>''
             @ renderAnchor ''a'' ''a'' @ renderAnchor ''b'' ''b'' @ renderAnchor ''c'' ''c''
             @ ''</body></html>'')"
proof -
  let ?doc = "''<!DOCTYPE html><html><head><title>Simple index</title></head>''
             @ ''<body><h1>Simple index</h1>''
             @ renderAnchor ''a'' ''a'' @ renderAnchor ''b'' ''b'' @ renderAnchor ''c'' ''c''
             @ ''</body></html>''"
  have pf: "map Prefix (concat [[\<lparr>Prefix = ''a/''\<rparr>, \<lparr>Prefix = ''b/''\<rparr>], [\<lparr>Prefix = ''c/''\<rparr>]])
      = [''a/'', ''b/'', ''c/'']"
    by simp
  have put: "put_reply demo_store (PutObject (S3_BUCKET demo_env) ''index.html'' ?doc)
      = Inr [(''ETag'', ''e1'')]"
    by (simp add: demo_store_def)
  have "reindex_bucket demo_env demo_store
           = (Inr [(''ETag'', ''e1'')],
              demo_store\<lparr>calls := calls demo_store
                  @ [ListObjects (S3_BUCKET demo_env) None (Some ''/''),
                     PutObject (S3_BUCKET demo_env) ''index.html'' ?doc],
                objects := (objects demo_store)((S3_BUCKET demo_env, ''index.html'') \<mapsto> ?doc)\<rparr>)"
    by (rule reindex_three_prefixes_written [OF demo_root_listing demo_root_prefixes pf refl put])
  moreover have "S3_BUCKET demo_env = ''pypi''"
    by (simp add: S3_BUCKET_def demo_env_def)
  moreover have "objects demo_store (''pypi'', ''index.html'') = Some ''stale''"
    by (simp add: demo_store_def)
  ultimately show ?thesis
    by simp
qed

lemma literal_base_path_rejects_extra_segment:
  assumes "\<forall>c\<in>set (BASE_PATH env). \<not> re_special c"
    and "p = BASE_PATH env @ ''/'' @ seg1 @ ''/'' @ seg2"
  shows "re_match other (''^'' @ BASE_PATH env @ ''/([^/]+)$'') p = Inr None
       \<and> BASE_PATH env \<noteq> p
       \<and> p \<noteq> []
       \<and> get_response other env s p = (Inr (reject 403), s)
       \<and> (path ev = Some p0 \<and> strip ''/'' p0 = p \<and> httpMethod ev = Some ''GET''
            \<longrightarrow> proxy_request other env s ev = (Inr (reject 403), s))"
proof -
  have m: "re_match other (''^'' @ BASE_PATH env @ ''/([^/]+)$'') p = Inr None"
    unfolding assms(2) re_match_route_literal [OF assms(1)]
    by (simp add: run_suffix_two_segments)
  have ne: "BASE_PATH env \<noteq> p" "p \<noteq> []"
    using assms(2) by simp_all
  have r: "get_response other env s p = (Inr (reject 403), s)"
    unfolding get_response_def m using ne by simp
  then have "path ev = Some p0 \<and> strip ''/'' p0 = p \<and> httpMethod ev = Some ''GET''
            \<longrightarrow> proxy_request other env s ev = (Inr (reject 403), s)"
    by (simp add: proxy_request_def)
  with m ne r show ?thesis
    by blast
qed

lemma literal_base_path_rejects_extra_segment_demo:
  "BASE_PATH demo_env = ''simple''
   \<and> strip ''/'' ''/simple/pkg/extra/'' = ''simple/pkg/extra''
   \<and> re_match demo_other ''^simple/([^/]+)$'' ''simple/pkg/extra'' = Inr None
   \<and> proxy_request demo_other demo_env demo_store
        \<lparr>httpMethod = Some ''GET'', path = Some ''/simple/pkg/extra/''\<rparr>
       = (Inr (reject 403), demo_store)"
proof -
  have lit: "\<forall>c\<in>set (BASE_PATH demo_env). \<not> re_special c"
    using simple_is_literal by (simp add: demo_base_path)
  have p: "''simple/pkg/extra'' = BASE_PATH demo_env @ ''/'' @ ''pkg'' @ ''/'' @ ''extra''"
    by (simp add: demo_base_path)
  have st: "strip ''/'' ''/simple/pkg/extra/'' = ''simple/pkg/extra''"
    by (simp add: strip_def)
  from literal_base_path_rejects_extra_segment [OF lit p, of demo_other demo_store
      "\<lparr>httpMethod = Some ''GET'', path = Some ''/simple/pkg/extra/''\<rparr>" "''/simple/pkg/extra/''"]
  show ?thesis
    by (simp add: demo_base_path st)
qed

lemma literal_base_path_root_redirect:
  assumes "\<forall>c\<in>set (BASE_PATH env). \<not> re_special c"
    and "BASE_PATH env \<noteq> []"
    and "path ev = Some p0"
    and "strip ''/'' p0 = []"
    and "httpMethod ev = Some ''GET'' \<or> httpMethod ev = Some ''HEAD''"
  shows "proxy_request other env s ev
           = (Inr \<lparr>statusCode = 301, headers = Some [''Location'' \<mapsto> ''/'' @ BASE_PATH env],
                  body = None\<rparr>, s)"
proof -
  have "get_response other env s [] = (Inr (redirect (''/'' @ BASE_PATH env)), s)"
    by (rule redirect_when_pattern_compiles [OF parse_route_literal [OF assms(1)] assms(2)])
  then show ?thesis
    using assms(3,4,5) by (auto simp: proxy_request_def redirect_def)
qed

lemma literal_base_path_root_redirect_demo:
  "BASE_PATH demo_env = ''simple''
   \<and> proxy_request demo_other demo_env demo_store \<lparr>httpMethod = Some ''HEAD'', path = Some ''/''\<rparr>
       = (Inr \<lparr>statusCode = 301, headers = Some [''Location'' \<mapsto> ''/simple''], body = None\<rparr>,
          demo_store)"
proof -
  let ?ev = "\<lparr>httpMethod = Some ''HEAD'', path = Some ''/''\<rparr>"
  have lit: "\<forall>c\<in>set (BASE_PATH demo_env). \<not> re_special c"
    using simple_is_literal by (simp add: demo_base_path)
  have ne: "BASE_PATH demo_env \<noteq> []"
    by (simp add: demo_base_path)
  have "path ?ev = Some ''/''" "strip ''/'' ''/'' = []"
      "httpMethod ?ev = Some ''GET'' \<or> httpMethod ?ev = Some ''HEAD''"
    by (simp_all add: strip_def)
  from literal_base_path_root_redirect [OF lit ne this, of demo_other demo_store]
  show ?thesis
    by (simp add: demo_base_path)
qed

section \<open>Properties\<close>

text \<open>
  C1. With an empty base path the route pattern is \<^verbatim>\<open>^/([^/]+)$\<close>: it asks for a leading
  slash, which a stripped path never has. So a non-empty path \<open>p\<close> without a slash does not
  match it, and the \<^verbatim>\<open>GET\<close> request for \<open>p\<close> is rejected with 403, the store untouched; it
  is not answered by \<open>get_package_index p\<close>, as the specification of the empty base path
  expects.
\<close>

theorem empty_base_path_rejects_single_segment:
  assumes "BASE_PATH env = []"
    and "p \<noteq> []"
    and "CHR ''/'' \<notin> set p"
  shows "re_match other (''^'' @ BASE_PATH env @ ''/([^/]+)$'') p = Inr None
       \<and> get_response other env s p = (Inr (reject 403), s)
       \<and> (path ev = Some p0 \<and> strip ''/'' p0 = p \<and> httpMethod ev = Some ''GET''
            \<longrightarrow> proxy_request other env s ev = (Inr (reject 403), s))"
proof -
  from assms(2,3) obtain c r where p: "p = c # r" and c: "c \<noteq> CHR ''/''"
    by (cases p) auto
  have m: "re_match other (''^'' @ BASE_PATH env @ ''/([^/]+)$'') p = Inr None"
    using c by (simp add: assms(1) re_match_def is_repeat_def p)
  have r: "get_response other env s p = (Inr (reject 403), s)"
    unfolding get_response_def m using assms(1,2) by simp
  then have "path ev = Some p0 \<and> strip ''/'' p0 = p \<and> httpMethod ev = Some ''GET''
            \<longrightarrow> proxy_request other env s ev = (Inr (reject 403), s)"
    by (simp add: proxy_request_def)
  with m r show ?thesis
    by blast
qed

theorem empty_base_path_rejects_single_segment_witness:
  "BASE_PATH default_env = []
   \<and> strip ''/'' ''/pkg/'' = ''pkg''
   \<and> re_match demo_other ''^/([^/]+)$'' ''pkg'' = Inr None
   \<and> proxy_request demo_other default_env demo_store
        \<lparr>httpMethod = Some ''GET'', path = Some ''/pkg/''\<rparr>
       = (Inr \<lparr>statusCode = 403, headers = None, body = None\<rparr>, demo_store)"
proof -
  have "''pkg'' \<noteq> []" "CHR ''/'' \<notin> set ''pkg''"
    by simp_all
  from empty_base_path_rejects_single_segment [OF default_base_path this, of demo_other demo_store
      "\<lparr>httpMethod = Some ''GET'', path = Some ''/pkg/''\<rparr>" "''/pkg/''"]
  show ?thesis
    by (simp add: default_base_path strip_def reject_def)
qed

text \<open>
  C2. When the listing under \<^verbatim>\<open>p/\<close> delivers the keys \<open>K\<close> (the keys of all its pages,
  concatenated, as \<open>listed_keys\<close> reads them off the pages) and every key is signed,
  \<open>get_package_index\<close> answers 200 with the page titled \<^verbatim>\<open>Links for p\<close> whose anchors are as
  many as the keys, the \<open>i\<close>-th anchor being the link to the signed URL of the \<open>i\<close>-th key
  under the last segment of that key: listing order, nothing sorted, nothing dropped.
\<close>

theorem package_index_preserves_listing_order:
  assumes "listing s (ListObjects (S3_BUCKET env) (Some (p @ ''/'')) None) = (pages, None)"
    and "listed_keys pages = K"
    and "\<forall>k\<in>set K. signer s (sign_request env k) = Inr (url k)"
  shows "\<exists>anchors.
           length anchors = length K
         \<and> (\<forall>i<length K.
              anchors ! i = renderAnchor (url (K ! i)) (snd (posixpath_split (K ! i))))
         \<and> fst (get_package_index env s p)
             = Inr \<lparr>statusCode = 200,
                    headers = Some [''Content-Type'' \<mapsto> ''text/html; charset=UTF-8''],
                    body = Some (''<!DOCTYPE html><html><head><title>Links for '' @ p
                      @ ''</title></head><body><h1>Links for '' @ p @ ''</h1>''
                      @ concat anchors @ ''</body></html>'')\<rparr>"
proof -
  let ?anchors = "map (\<lambda>k. renderAnchor (url k) (snd (posixpath_split k))) K"
  have keys: "page_keys pages = K"
    using assms(2) by (simp add: page_keys_listed)
  have "\<And>k. k \<in> set (page_keys pages) \<Longrightarrow> signer s (sign_request env k) = Inr (url k)"
    using keys assms(3) by simp
  from get_package_index_ok [OF assms(1) this]
  have "fst (get_package_index env s p) = Inr (ok (renderIndex (''Links for '' @ p) ?anchors))"
    using keys by simp
  then have "fst (get_package_index env s p)
             = Inr \<lparr>statusCode = 200,
                    headers = Some [''Content-Type'' \<mapsto> ''text/html; charset=UTF-8''],
                    body = Some (''<!DOCTYPE html><html><head><title>Links for '' @ p
                      @ ''</title></head><body><h1>Links for '' @ p @ ''</h1>''
                      @ concat ?anchors @ ''</body></html>'')\<rparr>"
    by (simp add: ok_def renderIndex_def del: fun_upd_apply)
  moreover have "length ?anchors = length K"
    by simp
  moreover have "\<forall>i<length K.
      ?anchors ! i = renderAnchor (url (K ! i)) (snd (posixpath_split (K ! i)))"
    by simp
  ultimately show ?thesis
    by blast
qed

theorem package_index_preserves_listing_order_witness:
  "map Contents demo_unsorted_pages
     = [Some [\<lparr>Key = ''lib/lib-2.0.tar.gz''\<rparr>, \<lparr>Key = ''lib/lib-1.0.tar.gz''\<rparr>], None,
        Some [\<lparr>Key = ''lib/lib-2.0.tar.gz''\<rparr>]]
   \<and> fst (get_package_index demo_env demo_unsorted_store ''lib'')
       = Inr (ok (renderIndex ''Links for lib''
           [renderAnchor ''https://pypi.s3.test/lib/lib-2.0.tar.gz?X-Amz-Expires=900''
              ''lib-2.0.tar.gz'',
            renderAnchor ''https://pypi.s3.test/lib/lib-1.0.tar.gz?X-Amz-Expires=900''
              ''lib-1.0.tar.gz'',
            renderAnchor ''https://pypi.s3.test/lib/lib-2.0.tar.gz?X-Amz-Expires=900''
              ''lib-2.0.tar.gz'']))"
proof -
  let ?K = "[''lib/lib-2.0.tar.gz'', ''lib/lib-1.0.tar.gz'', ''lib/lib-2.0.tar.gz'']"
  let ?url = "\<lambda>k. ''https://pypi.s3.test/'' @ k @ ''?X-Amz-Expires=900''"
  have sg: "\<forall>k\<in>set ?K. signer demo_unsorted_store (sign_request demo_env k) = Inr (?url k)"
    using demo_unsorted_sign by blast
  from package_index_preserves_listing_order [OF demo_unsorted_listing demo_unsorted_keys sg]
  obtain anchors where len: "length anchors = length ?K"
    and nth: "\<forall>i<length ?K. anchors ! i = renderAnchor (?url (?K ! i)) (snd (posixpath_split (?K ! i)))"
    and res: "fst (get_package_index demo_env demo_unsorted_store (''lib''))
             = Inr \<lparr>statusCode = 200,
                    headers = Some [''Content-Type'' \<mapsto> ''text/html; charset=UTF-8''],
                    body = Some (''<!DOCTYPE html><html><head><title>Links for '' @ ''lib''
                      @ ''</title></head><body><h1>Links for '' @ ''lib'' @ ''</h1>''
                      @ concat anchors @ ''</body></html>'')\<rparr>"
    by blast
  from len obtain a0 a1 a2 where as: "anchors = [a0, a1, a2]"
    by (auto simp: length_Suc_conv)
  from nth have "anchors ! 0 = renderAnchor (?url (?K ! 0)) (snd (posixpath_split (?K ! 0)))"
    and "anchors ! 1 = renderAnchor (?url (?K ! 1)) (snd (posixpath_split (?K ! 1)))"
    and "anchors ! 2 = renderAnchor (?url (?K ! 2)) (snd (posixpath_split (?K ! 2)))"
    by simp_all
  with as have "a0 = renderAnchor (?url ''lib/lib-2.0.tar.gz'') ''lib-2.0.tar.gz''"
    and "a1 = renderAnchor (?url ''lib/lib-1.0.tar.gz'') ''lib-1.0.tar.gz''"
    and "a2 = renderAnchor (?url ''lib/lib-2.0.tar.gz'') ''lib-2.0.tar.gz''"
    by (simp_all add: basename_lib_1 basename_lib_2)
  with as res have "fst (get_package_index demo_env demo_unsorted_store ''lib'')
       = Inr (ok (renderIndex ''Links for lib''
           [renderAnchor ''https://pypi.s3.test/lib/lib-2.0.tar.gz?X-Amz-Expires=900''
              ''lib-2.0.tar.gz'',
            renderAnchor ''https://pypi.s3.test/lib/lib-1.0.tar.gz?X-Amz-Expires=900''
              ''lib-1.0.tar.gz'',
            renderAnchor ''https://pypi.s3.test/lib/lib-2.0.tar.gz?X-Amz-Expires=900''
              ''lib-2.0.tar.gz'']))"
    by (simp add: ok_def renderIndex_def del: fun_upd_apply)
  moreover have "map Contents demo_unsorted_pages
     = [Some [\<lparr>Key = ''lib/lib-2.0.tar.gz''\<rparr>, \<lparr>Key = ''lib/lib-1.0.tar.gz''\<rparr>], None,
        Some [\<lparr>Key = ''lib/lib-2.0.tar.gz''\<rparr>]]"
    by (simp add: demo_unsorted_pages_def)
  ultimately show ?thesis
    by blast
qed

text \<open>
  C3. A listing with delimiter \<^verbatim>\<open>/\<close> can deliver the prefixes \<^verbatim>\<open>a/\<close>, \<^verbatim>\<open>b/\<close>, \<^verbatim>\<open>c/\<close> in this
  order and also a page without a \<^verbatim>\<open>CommonPrefixes\<close> entry (a page of keys only). Then
  \<open>reindex_bucket\<close> does not store the index of \<open>a\<close>, \<open>b\<close>, \<open>c\<close> that the specification
  describes: iterating the missing entry raises \<^verbatim>\<open>TypeError\<close>, and what was stored under
  \<^verbatim>\<open>index.html\<close> stays. (When every page carries the entry, the index of the three anchors
  is written: \<open>reindex_three_prefixes_written\<close>.)
\<close>

theorem reindex_drops_three_prefixes:
  assumes "listing s (ListObjects (S3_BUCKET env) None (Some ''/'')) = (pages, None)"
    and "listed_prefixes pages = [''a/'', ''b/'', ''c/'']"
    and "pg \<in> set pages"
    and "CommonPrefixes pg = None"
  shows "reindex_bucket env s
           = (Inl TypeError, s\<lparr>calls := calls s @ [ListObjects (S3_BUCKET env) None (Some ''/'')]\<rparr>)
       \<and> objects (snd (reindex_bucket env s)) (S3_BUCKET env, ''index.html'')
           = objects s (S3_BUCKET env, ''index.html'')"
proof -
  let ?req = "ListObjects (S3_BUCKET env) None (Some ''/'')"
  have pg: "paginate s ?req = ((pages, None), s\<lparr>calls := calls s @ [?req]\<rparr>)"
    using assms(1) by (simp add: paginate_def)
  have "reindex_bucket env s = (Inl TypeError, s\<lparr>calls := calls s @ [?req]\<rparr>)"
    unfolding reindex_bucket_def pg
    by (simp add: page_pkgs_missing [OF assms(3,4)])
  then show ?thesis
    by simp
qed

theorem reindex_drops_three_prefixes_witness:
  "listed_prefixes demo_root_keys_pages = [''a/'', ''b/'', ''c/'']
   \<and> fst (reindex_bucket demo_env demo_root_keys_store) = Inl TypeError
   \<and> calls (snd (reindex_bucket demo_env demo_root_keys_store))
       = [ListObjects ''pypi'' None (Some ''/'')]
   \<and> objects (snd (reindex_bucket demo_env demo_root_keys_store)) (''pypi'', ''index.html'')
       = Some ''stale''"
proof -
  let ?pg = "\<lparr>Contents = Some [\<lparr>Key = ''notes.txt''\<rparr>], CommonPrefixes = None\<rparr>"
  have l: "listing demo_root_keys_store (ListObjects (S3_BUCKET demo_env) None (Some ''/''))
      = (demo_root_keys_pages, None)"
    by (simp add: demo_root_keys_store_def)
  have ps: "listed_prefixes demo_root_keys_pages = [''a/'', ''b/'', ''c/'']"
    by (simp add: demo_root_keys_pages_def)
  have "?pg \<in> set demo_root_keys_pages" "CommonPrefixes ?pg = None"
    by (simp_all add: demo_root_keys_pages_def)
  from reindex_drops_three_prefixes [OF l ps this] ps
  show ?thesis
    by (simp add: demo_root_keys_store_def demo_store_def demo_env_def S3_BUCKET_def)
qed

text \<open>
  C4. When the listing under \<^verbatim>\<open>p/\<close> delivers no key (its pages have no \<^verbatim>\<open>Contents\<close> entry,
  or an empty one), \<open>get_package_index p\<close> answers 200 with the page titled \<^verbatim>\<open>Links for p\<close>
  that has no anchor.
\<close>

theorem empty_package_is_not_an_error:
  assumes "listing s (ListObjects (S3_BUCKET env) (Some (p @ ''/'')) None) = (pages, None)"
    and "page_keys pages = []"
  shows "fst (get_package_index env s p)
           = Inr \<lparr>statusCode = 200,
                  headers = Some [''Content-Type'' \<mapsto> ''text/html; charset=UTF-8''],
                  body = Some (''<!DOCTYPE html><html><head><title>Links for '' @ p
                    @ ''</title></head><body><h1>Links for '' @ p @ ''</h1></body></html>'')\<rparr>"
proof -
  have "\<And>k. k \<in> set (page_keys pages) \<Longrightarrow> signer s (sign_request env k) = Inr []"
    using assms(2) by simp
  from get_package_index_ok [OF assms(1) this] show ?thesis
    using assms(2) by (simp add: ok_def renderIndex_def del: fun_upd_apply)
qed

theorem empty_package_is_not_an_error_witness:
  "map Contents demo_empty_pages = [None, Some []]
   \<and> fst (get_package_index demo_env demo_store ''nothing'')
       = Inr (ok (''<!DOCTYPE html><html><head><title>Links for nothing</title></head>''
                @ ''<body><h1>Links for nothing</h1></body></html>''))"
  using empty_package_is_not_an_error [OF demo_empty_listing demo_empty_keys]
  by (simp add: ok_def demo_empty_pages_def del: fun_upd_apply)

text \<open>
  C5. A request with a path whose method is neither \<^verbatim>\<open>GET\<close> nor \<^verbatim>\<open>HEAD\<close> is answered by
  \<open>reject 403\<close>: status 403, no headers, no body. The store is returned as it was, its call
  log included: nothing was listed, read or signed, and the path was not routed.
\<close>

theorem other_methods_rejected:
  assumes "path ev = Some p0"
    and "httpMethod ev \<noteq> Some ''GET''"
    and "httpMethod ev \<noteq> Some ''HEAD''"
  shows "proxy_request other env s ev
           = (Inr \<lparr>statusCode = 403, headers = None, body = None\<rparr>, s)"
  using assms by (simp add: proxy_request_def reject_def)

theorem other_methods_rejected_witness:
  "proxy_request demo_other demo_env demo_store
       \<lparr>httpMethod = Some ''POST'', path = Some ''/simple/pkg/''\<rparr>
     = (Inr \<lparr>statusCode = 403, headers = None, body = None\<rparr>, demo_store)
   \<and> calls demo_store = []"
proof -
  let ?ev = "\<lparr>httpMethod = Some ''POST'', path = Some ''/simple/pkg/''\<rparr>"
  have "path ?ev = Some ''/simple/pkg/''" "httpMethod ?ev \<noteq> Some ''GET''"
      "httpMethod ?ev \<noteq> Some ''HEAD''"
    by simp_all
  from other_methods_rejected [OF this] show ?thesis
    by (simp add: demo_store_def)
qed

text \<open>
  C6. The base path is spliced into the route pattern as pattern text. With the base path
  \<^verbatim>\<open>.*\<close> the request \<^verbatim>\<open>GET /.*/a/b\<close>, whose stripped path is base path, slash and two
  segments, matches the pattern with the last segment as the group: it is answered by the
  package index of \<open>b\<close> with status 200, not rejected with 403 as the specification says.
  (For a base path without a special character such paths are rejected:
  \<open>literal_base_path_rejects_extra_segment\<close>.)
\<close>

theorem wildcard_base_path_serves_extra_segment:
  "BASE_PATH wildcard_env = ''.*''
   \<and> strip ''/'' ''/.*/a/b'' = ''.*'' @ ''/'' @ ''a'' @ ''/'' @ ''b''
   \<and> re_match demo_other (''^'' @ ''.*'' @ ''/([^/]+)$'') ''.*/a/b'' = Inr (Some [1 \<mapsto> ''b''])
   \<and> proxy_request demo_other wildcard_env demo_store
        \<lparr>httpMethod = Some ''GET'', path = Some ''/.*/a/b''\<rparr>
       = (Inr (ok (renderIndex ''Links for b'' [])),
          demo_store\<lparr>calls := [ListObjects ''pypi'' (Some ''b/'') None]\<rparr>)
   \<and> fst (proxy_request demo_other wildcard_env demo_store
        \<lparr>httpMethod = Some ''GET'', path = Some ''/.*/a/b''\<rparr>)
       \<noteq> Inr (reject 403)"
proof -
  have st: "strip ''/'' ''/.*/a/b'' = ''.*/a/b''"
    by (simp add: strip_def)
  have "get_response demo_other wildcard_env demo_store ''.*/a/b''
      = get_package_index wildcard_env demo_store ''b''"
    unfolding get_response_def wildcard_base_path
    by (simp add: wildcard_match)
  then have "proxy_request demo_other wildcard_env demo_store
        \<lparr>httpMethod = Some ''GET'', path = Some ''/.*/a/b''\<rparr>
       = (Inr (ok (renderIndex ''Links for b'' [])),
          demo_store\<lparr>calls := [ListObjects ''pypi'' (Some ''b/'') None]\<rparr>)"
    by (simp add: proxy_request_def st wildcard_package_index)
  then show ?thesis
    using wildcard_match [of demo_other]
    by (simp add: wildcard_base_path st ok_def reject_def)
qed

text \<open>
  C7. The base path is spliced into the route pattern as pattern text. With the base path
  \<^verbatim>\<open>*\<close> the pattern \<^verbatim>\<open>^*/([^/]+)$\<close> does not compile: the request \<^verbatim>\<open>GET /\<close>, whose stripped path
  is empty and differs from the base path, makes \<^verbatim>\<open>re.match\<close> raise, and no redirect to
  \<^verbatim>\<open>/*\<close> is returned as the specification says. (Whenever the pattern compiles the
  redirect is returned: \<open>redirect_when_pattern_compiles\<close>.)
\<close>

theorem star_base_path_raises_on_root:
  "BASE_PATH star_env = ''*''
   \<and> strip ''/'' ''/'' = []
   \<and> re_parse 1 [] (''^'' @ ''*'' @ ''/([^/]+)$'') = Invalid
   \<and> proxy_request demo_other star_env demo_store \<lparr>httpMethod = Some ''GET'', path = Some ''/''\<rparr>
       = (Inl re_error, demo_store)"
  by (simp add: star_base_path proxy_request_def strip_def get_response_def re_match_def)

text \<open>
  C8. For every store and every key, \<open>presign\<close> sends the signing request with \<^verbatim>\<open>ExpiresIn\<close>
  equal to the configured TTL (900 when none is configured) and the method \<^verbatim>\<open>GET\<close>. And
  two deployments that differ in the TTL only, over the same listing whose keys are all
  signed, send signing requests that differ in \<^verbatim>\<open>ExpiresIn\<close> only and answer with pages
  that have the same title, the same number of anchors in the same order and the same
  names: only the URLs that the signing calls returned differ.
\<close>

theorem ttl_passed_to_signing:
  "(env_S3_PRESIGNED_URL_TTL env1 = Some T1 \<longrightarrow>
      presign env1 s k
        = (signer s (GeneratePresignedUrl ''get_object'' T1 ''GET'' (S3_BUCKET env1) k),
           s\<lparr>calls := calls s
                @ [GeneratePresignedUrl ''get_object'' T1 ''GET'' (S3_BUCKET env1) k]\<rparr>))
   \<and> (env_S3_PRESIGNED_URL_TTL env1 = None \<longrightarrow>
      presign env1 s k
        = (signer s (GeneratePresignedUrl ''get_object'' 900 ''GET'' (S3_BUCKET env1) k),
           s\<lparr>calls := calls s
                @ [GeneratePresignedUrl ''get_object'' 900 ''GET'' (S3_BUCKET env1) k]\<rparr>))
   \<and> (env_S3_PRESIGNED_URL_TTL env1 = Some T1
       \<and> env2 = env1\<lparr>env_S3_PRESIGNED_URL_TTL := Some T2\<rparr>
       \<and> listing s (ListObjects (S3_BUCKET env1) (Some (p @ ''/'')) None) = (pages, None)
       \<and> (\<forall>k\<in>set (listed_keys pages).
             signer s (GeneratePresignedUrl ''get_object'' T1 ''GET'' (S3_BUCKET env1) k)
               = Inr (url1 k))
       \<and> (\<forall>k\<in>set (listed_keys pages).
             signer s (GeneratePresignedUrl ''get_object'' T2 ''GET'' (S3_BUCKET env1) k)
               = Inr (url2 k))
      \<longrightarrow>
        get_package_index env1 s p
          = (Inr (ok (renderIndex (''Links for '' @ p)
                 (map (\<lambda>k. renderAnchor (url1 k) (snd (posixpath_split k))) (listed_keys pages)))),
             s\<lparr>calls := calls s @ ListObjects (S3_BUCKET env1) (Some (p @ ''/'')) None
                  # map (GeneratePresignedUrl ''get_object'' T1 ''GET'' (S3_BUCKET env1))
                      (listed_keys pages)\<rparr>)
      \<and> get_package_index env2 s p
          = (Inr (ok (renderIndex (''Links for '' @ p)
                 (map (\<lambda>k. renderAnchor (url2 k) (snd (posixpath_split k))) (listed_keys pages)))),
             s\<lparr>calls := calls s @ ListObjects (S3_BUCKET env1) (Some (p @ ''/'')) None
                  # map (GeneratePresignedUrl ''get_object'' T2 ''GET'' (S3_BUCKET env1))
                      (listed_keys pages)\<rparr>))"
proof (intro conjI impI)
  assume "env_S3_PRESIGNED_URL_TTL env1 = Some T1"
  then show "presign env1 s k
        = (signer s (GeneratePresignedUrl ''get_object'' T1 ''GET'' (S3_BUCKET env1) k),
           s\<lparr>calls := calls s
                @ [GeneratePresignedUrl ''get_object'' T1 ''GET'' (S3_BUCKET env1) k]\<rparr>)"
    by (simp add: presign_def generate_presigned_url_def S3_PRESIGNED_URL_TTL_def)
next
  assume "env_S3_PRESIGNED_URL_TTL env1 = None"
  then show "presign env1 s k
        = (signer s (GeneratePresignedUrl ''get_object'' 900 ''GET'' (S3_BUCKET env1) k),
           s\<lparr>calls := calls s
                @ [GeneratePresignedUrl ''get_object'' 900 ''GET'' (S3_BUCKET env1) k]\<rparr>)"
    by (simp add: presign_def generate_presigned_url_def S3_PRESIGNED_URL_TTL_def)
next
  assume h: "env_S3_PRESIGNED_URL_TTL env1 = Some T1
       \<and> env2 = env1\<lparr>env_S3_PRESIGNED_URL_TTL := Some T2\<rparr>
       \<and> listing s (ListObjects (S3_BUCKET env1) (Some (p @ ''/'')) None) = (pages, None)
       \<and> (\<forall>k\<in>set (listed_keys pages).
             signer s (GeneratePresignedUrl ''get_object'' T1 ''GET'' (S3_BUCKET env1) k)
               = Inr (url1 k))
       \<and> (\<forall>k\<in>set (listed_keys pages).
             signer s (GeneratePresignedUrl ''get_object'' T2 ''GET'' (S3_BUCKET env1) k)
               = Inr (url2 k))"
  have t1: "S3_PRESIGNED_URL_TTL env1 = T1"
    using h by (simp add: S3_PRESIGNED_URL_TTL_def)
  have t2: "S3_PRESIGNED_URL_TTL env2 = T2" and b2: "S3_BUCKET env2 = S3_BUCKET env1"
    using h by (simp_all add: S3_PRESIGNED_URL_TTL_def S3_BUCKET_def)
  have r1: "sign_request env1 = GeneratePresignedUrl ''get_object'' T1 ''GET'' (S3_BUCKET env1)"
    by (rule ext) (simp add: sign_request_def t1)
  have r2: "sign_request env2 = GeneratePresignedUrl ''get_object'' T2 ''GET'' (S3_BUCKET env1)"
    by (rule ext) (simp add: sign_request_def t2 b2)
  have l1: "listing s (ListObjects (S3_BUCKET env1) (Some (p @ ''/'')) None) = (pages, None)"
    using h by simp
  have l2: "listing s (ListObjects (S3_BUCKET env2) (Some (p @ ''/'')) None) = (pages, None)"
    unfolding b2 by (rule l1)
  have g1: "\<forall>k\<in>set (listed_keys pages).
             signer s (GeneratePresignedUrl ''get_object'' T1 ''GET'' (S3_BUCKET env1) k)
               = Inr (url1 k)"
    and g2: "\<forall>k\<in>set (listed_keys pages).
             signer s (GeneratePresignedUrl ''get_object'' T2 ''GET'' (S3_BUCKET env1) k)
               = Inr (url2 k)"
    using h by blast+
  have s1: "\<And>k. k \<in> set (page_keys pages) \<Longrightarrow> signer s (sign_request env1 k) = Inr (url1 k)"
    unfolding r1 page_keys_listed using g1 by blast
  have s2: "\<And>k. k \<in> set (page_keys pages) \<Longrightarrow> signer s (sign_request env2 k) = Inr (url2 k)"
    unfolding r2 page_keys_listed using g2 by blast
  from get_package_index_ok [OF l1 s1]
  show "get_package_index env1 s p
          = (Inr (ok (renderIndex (''Links for '' @ p)
                 (map (\<lambda>k. renderAnchor (url1 k) (snd (posixpath_split k))) (listed_keys pages)))),
             s\<lparr>calls := calls s @ ListObjects (S3_BUCKET env1) (Some (p @ ''/'')) None
                  # map (GeneratePresignedUrl ''get_object'' T1 ''GET'' (S3_BUCKET env1))
                      (listed_keys pages)\<rparr>)"
    by (simp only: r1 page_keys_listed)
  from get_package_index_ok [OF l2 s2]
  show "get_package_index env2 s p
          = (Inr (ok (renderIndex (''Links for '' @ p)
                 (map (\<lambda>k. renderAnchor (url2 k) (snd (posixpath_split k))) (listed_keys pages)))),
             s\<lparr>calls := calls s @ ListObjects (S3_BUCKET env1) (Some (p @ ''/'')) None
                  # map (GeneratePresignedUrl ''get_object'' T2 ''GET'' (S3_BUCKET env1))
                      (listed_keys pages)\<rparr>)"
    by (simp only: r2 b2 page_keys_listed)
qed

theorem ttl_passed_to_signing_witness:
  "fst (presign (demo_env_ttl 900) demo_outage_store ''lib/lib-1.0.tar.gz'')
     = Inr ''https://pypi.s3.test/lib/lib-1.0.tar.gz?X-Amz-Expires=900''
   \<and> calls (snd (presign (demo_env_ttl 900) demo_outage_store ''lib/lib-1.0.tar.gz''))
     = [GeneratePresignedUrl ''get_object'' 900 ''GET'' ''pypi'' ''lib/lib-1.0.tar.gz'']
   \<and> get_package_index (demo_env_ttl 900) demo_unsorted_store ''lib''
     = (Inr (ok (renderIndex ''Links for lib''
          [renderAnchor ''https://pypi.s3.test/lib/lib-2.0.tar.gz?X-Amz-Expires=900''
             ''lib-2.0.tar.gz'',
           renderAnchor ''https://pypi.s3.test/lib/lib-1.0.tar.gz?X-Amz-Expires=900''
             ''lib-1.0.tar.gz'',
           renderAnchor ''https://pypi.s3.test/lib/lib-2.0.tar.gz?X-Amz-Expires=900''
             ''lib-2.0.tar.gz''])),
        demo_unsorted_store\<lparr>calls :=
          [ListObjects ''pypi'' (Some ''lib/'') None,
           GeneratePresignedUrl ''get_object'' 900 ''GET'' ''pypi'' ''lib/lib-2.0.tar.gz'',
           GeneratePresignedUrl ''get_object'' 900 ''GET'' ''pypi'' ''lib/lib-1.0.tar.gz'',
           GeneratePresignedUrl ''get_object'' 900 ''GET'' ''pypi'' ''lib/lib-2.0.tar.gz'']\<rparr>)
   \<and> get_package_index (demo_env_ttl 60) demo_unsorted_store ''lib''
     = (Inr (ok (renderIndex ''Links for lib''
          [renderAnchor ''https://pypi.s3.test/lib/lib-2.0.tar.gz?X-Amz-Expires=60''
             ''lib-2.0.tar.gz'',
           renderAnchor ''https://pypi.s3.test/lib/lib-1.0.tar.gz?X-Amz-Expires=60''
             ''lib-1.0.tar.gz'',
           renderAnchor ''https://pypi.s3.test/lib/lib-2.0.tar.gz?X-Amz-Expires=60''
             ''lib-2.0.tar.gz''])),
        demo_unsorted_store\<lparr>calls :=
          [ListObjects ''pypi'' (Some ''lib/'') None,
           GeneratePresignedUrl ''get_object'' 60 ''GET'' ''pypi'' ''lib/lib-2.0.tar.gz'',
           GeneratePresignedUrl ''get_object'' 60 ''GET'' ''pypi'' ''lib/lib-1.0.tar.gz'',
           GeneratePresignedUrl ''get_object'' 60 ''GET'' ''pypi'' ''lib/lib-2.0.tar.gz'']\<rparr>)"
proof -
  let ?url1 = "\<lambda>k. ''https://pypi.s3.test/'' @ k @ ''?X-Amz-Expires=900''"
  let ?url2 = "\<lambda>k. ''https://pypi.s3.test/'' @ k @ ''?X-Amz-Expires=60''"
  have bk: "S3_BUCKET (demo_env_ttl 900) = ''pypi''"
    by (simp add: demo_env_ttl_def demo_env_def S3_BUCKET_def)
  have a1: "env_S3_PRESIGNED_URL_TTL (demo_env_ttl 900) = Some 900"
    by (simp add: demo_env_ttl_def)
  have a2: "demo_env_ttl 60 = (demo_env_ttl 900)\<lparr>env_S3_PRESIGNED_URL_TTL := Some 60\<rparr>"
    by (simp add: demo_env_ttl_def)
  have a3: "listing demo_unsorted_store
        (ListObjects (S3_BUCKET (demo_env_ttl 900)) (Some (''lib'' @ ''/'')) None)
      = (demo_unsorted_pages, None)"
    by (simp add: demo_unsorted_store_def)
  have a4: "\<forall>k\<in>set (listed_keys demo_unsorted_pages).
      signer demo_unsorted_store (GeneratePresignedUrl ''get_object'' 900 ''GET''
        (S3_BUCKET (demo_env_ttl 900)) k) = Inr (?url1 k)"
    by (simp add: bk demo_unsorted_store_def demo_store_def demo_signer_def)
  have a5: "\<forall>k\<in>set (listed_keys demo_unsorted_pages).
      signer demo_unsorted_store (GeneratePresignedUrl ''get_object'' 60 ''GET''
        (S3_BUCKET (demo_env_ttl 900)) k) = Inr (?url2 k)"
    by (simp add: bk demo_unsorted_store_def demo_store_def demo_signer_def)
  have sg: "signer demo_outage_store
      (GeneratePresignedUrl ''get_object'' 900 ''GET'' ''pypi'' ''lib/lib-1.0.tar.gz'')
      = Inr ''https://pypi.s3.test/lib/lib-1.0.tar.gz?X-Amz-Expires=900''"
    by (simp add: demo_outage_store_def demo_store_def demo_signer_def)
  have cl: "calls demo_outage_store = []" "calls demo_unsorted_store = []"
    by (simp_all add: demo_outage_store_def demo_unsorted_store_def demo_store_def)
  have one: "presign (demo_env_ttl 900) demo_outage_store ''lib/lib-1.0.tar.gz''
      = (signer demo_outage_store (GeneratePresignedUrl ''get_object'' 900 ''GET''
           (S3_BUCKET (demo_env_ttl 900)) ''lib/lib-1.0.tar.gz''),
         demo_outage_store\<lparr>calls := calls demo_outage_store
           @ [GeneratePresignedUrl ''get_object'' 900 ''GET'' (S3_BUCKET (demo_env_ttl 900))
                ''lib/lib-1.0.tar.gz'']\<rparr>)"
    using ttl_passed_to_signing [of "demo_env_ttl 900" 900 demo_outage_store
        "''lib/lib-1.0.tar.gz''"] a1
    by blast
  have two: "get_package_index (demo_env_ttl 900) demo_unsorted_store ''lib''
          = (Inr (ok (renderIndex (''Links for '' @ ''lib'')
                 (map (\<lambda>k. renderAnchor (?url1 k) (snd (posixpath_split k)))
                    (listed_keys demo_unsorted_pages)))),
             demo_unsorted_store\<lparr>calls := calls demo_unsorted_store
                  @ ListObjects (S3_BUCKET (demo_env_ttl 900)) (Some (''lib'' @ ''/'')) None
                  # map (GeneratePresignedUrl ''get_object'' 900 ''GET'' (S3_BUCKET (demo_env_ttl 900)))
                      (listed_keys demo_unsorted_pages)\<rparr>)
      \<and> get_package_index (demo_env_ttl 60) demo_unsorted_store ''lib''
          = (Inr (ok (renderIndex (''Links for '' @ ''lib'')
                 (map (\<lambda>k. renderAnchor (?url2 k) (snd (posixpath_split k)))
                    (listed_keys demo_unsorted_pages)))),
             demo_unsorted_store\<lparr>calls := calls demo_unsorted_store
                  @ ListObjects (S3_BUCKET (demo_env_ttl 900)) (Some (''lib'' @ ''/'')) None
                  # map (GeneratePresignedUrl ''get_object'' 60 ''GET'' (S3_BUCKET (demo_env_ttl 900)))
                      (listed_keys demo_unsorted_pages)\<rparr>)"
    using ttl_passed_to_signing [of "demo_env_ttl 900" 900 demo_unsorted_store
        "''lib/lib-1.0.tar.gz''" "demo_env_ttl 60" 60 "''lib''" demo_unsorted_pages ?url1 ?url2]
      a1 a2 a3 a4 a5
    by blast
  from one two show ?thesis
    by (simp add: bk sg cl demo_unsorted_keys basename_lib_1 basename_lib_2)
qed

text \<open>
  C9. The handler answers a \<^verbatim>\<open>HEAD\<close> request as it answers the \<^verbatim>\<open>GET\<close> request for the same
  path in the same store: the same envelope, body included, and the same store afterwards.
\<close>

theorem head_equals_get:
  "proxy_request other env s (ev\<lparr>httpMethod := Some ''HEAD''\<rparr>)
     = proxy_request other env s (ev\<lparr>httpMethod := Some ''GET''\<rparr>)"
  by (simp add: proxy_request_def split: option.splits)

theorem head_equals_get_witness:
  "proxy_request demo_other demo_env demo_store
       (\<lparr>httpMethod = None, path = Some ''/simple/pkg/''\<rparr>\<lparr>httpMethod := Some ''HEAD''\<rparr>)
     = get_package_index demo_env demo_store ''pkg''
   \<and> proxy_request demo_other demo_env demo_store
       (\<lparr>httpMethod = None, path = Some ''/simple/pkg/''\<rparr>\<lparr>httpMethod := Some ''GET''\<rparr>)
     = get_package_index demo_env demo_store ''pkg''"
proof -
  have lit: "\<forall>c\<in>set (BASE_PATH demo_env). \<not> re_special c"
    using simple_is_literal by (simp add: demo_base_path)
  have "get_response demo_other demo_env demo_store (BASE_PATH demo_env @ ''/'' @ ''pkg'')
      = get_package_index demo_env demo_store ''pkg''"
    by (rule route_single_segment [OF lit]) simp_all
  then have "proxy_request demo_other demo_env demo_store
       (\<lparr>httpMethod = None, path = Some ''/simple/pkg/''\<rparr>\<lparr>httpMethod := Some ''GET''\<rparr>)
     = get_package_index demo_env demo_store ''pkg''"
    by (simp add: proxy_request_def strip_def demo_base_path)
  with head_equals_get [of demo_other demo_env demo_store
      "\<lparr>httpMethod = None, path = Some ''/simple/pkg/''\<rparr>"]
  show ?thesis
    by simp
qed

text \<open>
  C10. When some page of the listing with delimiter \<^verbatim>\<open>/\<close> has no \<^verbatim>\<open>CommonPrefixes\<close> entry,
  \<open>reindex_bucket\<close> raises \<^verbatim>\<open>TypeError\<close> after the listing and before any write: the bucket
  contents are unchanged. And whenever a package listing delivers pages without a
  \<^verbatim>\<open>Contents\<close> entry, \<open>get_package_index\<close> answers 200 with a page without anchors.
\<close>

theorem reindex_raises_without_common_prefixes:
  assumes "listing s (ListObjects (S3_BUCKET env) None (Some ''/'')) = (pages, err)"
    and "pg \<in> set pages"
    and "CommonPrefixes pg = None"
  shows "reindex_bucket env s
           = (Inl TypeError, s\<lparr>calls := calls s @ [ListObjects (S3_BUCKET env) None (Some ''/'')]\<rparr>)
       \<and> objects (snd (reindex_bucket env s)) = objects s
       \<and> (listing s (ListObjects (S3_BUCKET env) (Some (p @ ''/'')) None) = (pages', None)
            \<and> (\<forall>q\<in>set pages'. Contents q = None)
          \<longrightarrow> fst (get_package_index env s p) = Inr (ok (renderIndex (''Links for '' @ p) [])))"
proof -
  let ?req = "ListObjects (S3_BUCKET env) None (Some ''/'')"
  have pg: "paginate s ?req = ((pages, err), s\<lparr>calls := calls s @ [?req]\<rparr>)"
    using assms(1) by (simp add: paginate_def)
  have r: "reindex_bucket env s = (Inl TypeError, s\<lparr>calls := calls s @ [?req]\<rparr>)"
    unfolding reindex_bucket_def pg
    by (simp add: page_pkgs_missing [OF assms(2,3)])
  have "fst (get_package_index env s p) = Inr (ok (renderIndex (''Links for '' @ p) []))"
    if l: "listing s (ListObjects (S3_BUCKET env) (Some (p @ ''/'')) None) = (pages', None)"
      and c: "\<forall>q\<in>set pages'. Contents q = None"
  proof -
    have keys: "page_keys pages' = []"
      using c by (intro page_keys_empty) simp
    have "\<And>k. k \<in> set (page_keys pages') \<Longrightarrow> signer s (sign_request env k) = Inr []"
      using keys by simp
    from get_package_index_ok [OF l this] show ?thesis
      using keys by simp
  qed
  with r show ?thesis
    by simp
qed

theorem reindex_raises_without_common_prefixes_witness:
  "fst (reindex_bucket demo_env demo_empty_bucket) = Inl TypeError
   \<and> calls (snd (reindex_bucket demo_env demo_empty_bucket)) = [ListObjects ''pypi'' None (Some ''/'')]
   \<and> objects (snd (reindex_bucket demo_env demo_empty_bucket)) (''pypi'', ''index.html'')
       = Some ''stale''
   \<and> fst (reindex_bucket demo_env demo_outage_store) = Inl (ClientError ''ServiceUnavailable'')
   \<and> fst (get_package_index demo_env demo_empty_bucket ''pkg'')
       = Inr (ok (renderIndex ''Links for pkg'' []))"
proof -
  let ?pg = "\<lparr>Contents = None, CommonPrefixes = None\<rparr>"
  have l1: "listing demo_empty_bucket (ListObjects (S3_BUCKET demo_env) None (Some ''/''))
      = ([?pg], None)"
    by (simp add: demo_empty_bucket_def)
  have l2: "listing demo_empty_bucket (ListObjects (S3_BUCKET demo_env) (Some (''pkg'' @ ''/'')) None)
      = ([?pg], None)"
    by (simp add: demo_empty_bucket_def)
  have "?pg \<in> set [?pg]" "CommonPrefixes ?pg = None"
    by simp_all
  note r = reindex_raises_without_common_prefixes [OF l1 this, of "''pkg''" "[?pg]"]
  have c: "\<forall>q\<in>set [?pg]. Contents q = None"
    by simp
  from r l2 c have "fst (get_package_index demo_env demo_empty_bucket ''pkg'')
       = Inr (ok (renderIndex (''Links for '' @ ''pkg'') []))"
    by blast
  moreover have "fst (reindex_bucket demo_env demo_outage_store)
      = Inl (ClientError ''ServiceUnavailable'')"
    by (simp add: reindex_bucket_def paginate_def demo_outage_store_def)
  ultimately show ?thesis
    using r by (simp add: demo_empty_bucket_def demo_store_def demo_env_def S3_BUCKET_def)
qed

end
